theory Spec2Isabelle
  imports Complex_Main "HOL-Library.Multiset"
begin

section \<open>Data model (types.ts)\<close>

text \<open>
  \<^verbatim>\<open>Transaction\<close> of \<^verbatim>\<open>types.ts\<close>. The fields \<^verbatim>\<open>id\<close>, \<^verbatim>\<open>type\<close> and \<^verbatim>\<open>note\<close> carry the suffix
  \<open>_t\<close> because the plain names are taken in HOL. \<^verbatim>\<open>amount\<close> is a JavaScript number; the
  application only ever produces whole currency units (\<^verbatim>\<open>parseInt\<close> in the form,
  \<^verbatim>\<open>Math.floor\<close> in the mock data), so it is an \<open>int\<close> here, which is exact for sums
  below \<open>2^53\<close>. \<^verbatim>\<open>date\<close> is the ISO string \<^verbatim>\<open>YYYY-MM-DD\<close>, kept as a string as in
  the source.
\<close>

datatype TransactionType = Expense | Income

datatype Category =
  Food | Transport | Utilities | Shopping | Entertainment | Health | Education
  | IncomeCat | Other

record Transaction =
  id_t :: string
  amount :: int
  type_t :: TransactionType
  category :: Category
  date :: string
  note_t :: string

datatype DateFilter = Week | Month | Year | All | Custom

section \<open>Transaction list handlers (App.tsx)\<close>

text \<open>
  \<^verbatim>\<open>setTransactions((prev) => prev.map((t) => (t.id === updatedTransaction.id ? updatedTransaction : t)))\<close>
\<close>

definition handleEditTransaction :: "Transaction \<Rightarrow> Transaction list \<Rightarrow> Transaction list" where
  "handleEditTransaction updatedTransaction prev =
     map (\<lambda>t. if id_t t = id_t updatedTransaction then updatedTransaction else t) prev"

definition handleDeleteTransaction :: "string \<Rightarrow> Transaction list \<Rightarrow> Transaction list" where
  "handleDeleteTransaction i prev = filter (\<lambda>t. id_t t \<noteq> i) prev"

section \<open>Derived totals (TransactionList.tsx, Dashboard.tsx)\<close>

text \<open>
  TransactionList: one \<^verbatim>\<open>reduce\<close> over the filtered list with the accumulator
  \<^verbatim>\<open>{ totalIncome: 0, totalExpense: 0 }\<close>; a transaction that is not an income is
  added to \<^verbatim>\<open>totalExpense\<close>.
\<close>

record Totals =
  totalIncome :: int
  totalExpense :: int

definition listTotalsStep :: "Totals \<Rightarrow> Transaction \<Rightarrow> Totals" where
  "listTotalsStep acc t =
     (if type_t t = Income then acc\<lparr>totalIncome := totalIncome acc + amount t\<rparr>
      else acc\<lparr>totalExpense := totalExpense acc + amount t\<rparr>)"

definition listTotals :: "Transaction list \<Rightarrow> Totals" where
  "listTotals filteredTransactions =
     foldl listTotalsStep \<lparr>totalIncome = 0, totalExpense = 0\<rparr> filteredTransactions"

definition listBalance :: "Transaction list \<Rightarrow> int" where
  "listBalance filteredTransactions =
     totalIncome (listTotals filteredTransactions) - totalExpense (listTotals filteredTransactions)"

text \<open>
  Dashboard: \<^verbatim>\<open>thisMonthTrans.filter(t => t.type === 'income').reduce((sum, t) => sum + t.amount, 0)\<close>
  and the same for \<^verbatim>\<open>'expense'\<close>; \<^verbatim>\<open>balance = totalIncome - totalExpense\<close>.
\<close>

definition reduceAmount :: "Transaction list \<Rightarrow> int" where
  "reduceAmount ts = foldl (\<lambda>sum t. sum + amount t) 0 ts"

definition dashTotalIncome :: "Transaction list \<Rightarrow> int" where
  "dashTotalIncome thisMonthTrans = reduceAmount (filter (\<lambda>t. type_t t = Income) thisMonthTrans)"

definition dashTotalExpense :: "Transaction list \<Rightarrow> int" where
  "dashTotalExpense thisMonthTrans = reduceAmount (filter (\<lambda>t. type_t t = Expense) thisMonthTrans)"

definition dashBalance :: "Transaction list \<Rightarrow> int" where
  "dashBalance thisMonthTrans = dashTotalIncome thisMonthTrans - dashTotalExpense thisMonthTrans"

section \<open>Amount input formatting (constants.ts, TransactionForm.tsx)\<close>

text \<open>
  The character classes of the regular expressions: \<^verbatim>\<open>\d\<close> is \<^verbatim>\<open>[0-9]\<close> and a word
  character (for \<^verbatim>\<open>\B\<close>) is \<^verbatim>\<open>[A-Za-z0-9_]\<close>.
\<close>

definition isDigit :: "char \<Rightarrow> bool" where
  "isDigit c = (48 \<le> (of_char c :: nat) \<and> (of_char c :: nat) \<le> 57)"

definition isWordChar :: "char \<Rightarrow> bool" where
  "isWordChar c =
     (isDigit c \<or> (65 \<le> (of_char c :: nat) \<and> (of_char c :: nat) \<le> 90)
      \<or> (97 \<le> (of_char c :: nat) \<and> (of_char c :: nat) \<le> 122) \<or> c = CHR ''_'')"

text \<open>
  \<^verbatim>\<open>.replace(/\B(?=(\d{3})+(?!\d))/g, ",")\<close> inserts a comma at every position of the
  string where the pattern matches the empty string.

  \<^item> \<^verbatim>\<open>(?=(\d{3})+(?!\d))\<close>: some positive multiple of three digits follows and the
    character after them is not a digit. The digits that follow form one maximal run, and
    the character after \<open>3k\<close> of them is a non-digit only when the run has exactly \<open>3k\<close>
    digits: the run is non-empty and its length is a multiple of three.
  \<^item> \<^verbatim>\<open>\B\<close>: the characters before and after the position are both word characters or
    both not (the start and the end of the string count as not).
\<close>

fun digitRun :: "string \<Rightarrow> nat" where
  "digitRun [] = 0"
| "digitRun (c # cs) = (if isDigit c then Suc (digitRun cs) else 0)"

definition lookaheadGroups :: "string \<Rightarrow> bool" where
  "lookaheadGroups cs = (3 \<le> digitRun cs \<and> digitRun cs mod 3 = 0)"

definition isWordOpt :: "char option \<Rightarrow> bool" where
  "isWordOpt p = (case p of None \<Rightarrow> False | Some c \<Rightarrow> isWordChar c)"

definition notWordBoundary :: "char option \<Rightarrow> char option \<Rightarrow> bool" where
  "notWordBoundary before after = (isWordOpt before = isWordOpt after)"

fun insertCommas :: "char option \<Rightarrow> string \<Rightarrow> string" where
  "insertCommas before [] = []"
| "insertCommas before (c # cs) =
     (if notWordBoundary before (Some c) \<and> lookaheadGroups (c # cs)
      then CHR '','' # c # insertCommas (Some c) cs
      else c # insertCommas (Some c) cs)"

text \<open>
  \<^verbatim>\<open>formatInputNumber\<close>: \<^verbatim>\<open>if (!value) return ""\<close>, then
  \<^verbatim>\<open>value.replace(/\D/g, "")\<close>, which removes every character that is not a digit and
  so keeps the digits, then the comma insertion.
\<close>

definition formatInputNumber :: "string \<Rightarrow> string" where
  "formatInputNumber v =
     (if v = [] then []
      else let cleanValue = filter isDigit v in insertCommas None cleanValue)"

text \<open>\<^verbatim>\<open>amountStr.replace(/,/g, '')\<close> of \<^verbatim>\<open>handleSubmit\<close>.\<close>

definition stripCommas :: "string \<Rightarrow> string" where
  "stripCommas amountStr = filter (\<lambda>c. c \<noteq> CHR '','') amountStr"

section \<open>Period comparison (Analytics.tsx, createCompData)\<close>

text \<open>
  \<^verbatim>\<open>createCompData(title, current, previous, labelPrev, labelCur)\<close>: the two sums are
  JavaScript numbers, taken as real numbers here. \<^verbatim>\<open>percentChange\<close> starts at 0 and is
  set in the two branches of the \<^verbatim>\<open>if\<close>. The field \<^verbatim>\<open>value\<close> of a chart point carries
  the suffix \<open>_t\<close>.
\<close>

record ChartDataPoint =
  name :: string
  value_t :: real
  fill :: string

record CompData =
  title :: string
  data :: "ChartDataPoint list"
  current :: real
  previous :: real
  percentChange :: real

definition createCompData :: "string \<Rightarrow> real \<Rightarrow> real \<Rightarrow> string \<Rightarrow> string \<Rightarrow> CompData" where
  "createCompData ttl cur prv labelPrev labelCur =
     (let percentChange0 = 0;
          pc = (if prv > 0 then ((cur - prv) / prv) * 100
                else if cur > 0 then 100
                else percentChange0)
      in \<lparr>title = ttl,
          data = [\<lparr>name = labelPrev, value_t = prv, fill = ''#94a3b8''\<rparr>,
                  \<lparr>name = labelCur, value_t = cur, fill = ''#3b82f6''\<rparr>],
          current = cur, previous = prv, percentChange = pc\<rparr>)"

section \<open>Dates (the platform's \<^verbatim>\<open>Date\<close>)\<close>

text \<open>
  A \<^verbatim>\<open>Date\<close> is its time value: milliseconds since 1970-01-01T00:00Z, or NaN for an
  invalid date (\<open>None\<close> below). The clock gives the time value of \<^verbatim>\<open>new Date()\<close> and
  the time zone of the browser. A time zone is the offset of local time from UTC, in
  milliseconds, as ECMA-262 has it: \<open>offsetAtUtc t\<close> is the offset in effect at the UTC
  time value \<open>t\<close> (\<^verbatim>\<open>LocalTZA(t, true)\<close>) and \<open>offsetAtLocal t\<close> the offset for the local
  time value \<open>t\<close> (\<^verbatim>\<open>LocalTZA(t, false)\<close>).
\<close>

record TimeZone =
  offsetAtUtc :: "int \<Rightarrow> int"
  offsetAtLocal :: "int \<Rightarrow> int"

record Clock =
  nowMs :: int
  zone :: TimeZone

text \<open>
  Two kinds of zone: one with a fixed offset, and one whose offset changes once, at the
  UTC time value \<open>change\<close>, from \<open>before\<close> to \<open>after\<close> (the start or the end of daylight
  saving time). A local time that the change skips or repeats is read with the offset
  before the change, as ECMA-262 prescribes.
\<close>

definition fixedZone :: "int \<Rightarrow> TimeZone" where
  "fixedZone offset = \<lparr>offsetAtUtc = (\<lambda>t. offset), offsetAtLocal = (\<lambda>t. offset)\<rparr>"

definition changingZone :: "int \<Rightarrow> int \<Rightarrow> int \<Rightarrow> TimeZone" where
  "changingZone change before after =
     \<lparr>offsetAtUtc = (\<lambda>t. if t < change then before else after),
      offsetAtLocal = (\<lambda>t. if t - before < change then before
                             else if t - after < change then before else after)\<rparr>"

definition msPerDay :: int where
  "msPerDay = 1000 * 3600 * 24"

definition digitVal :: "char \<Rightarrow> int" where
  "digitVal c = int (of_char c) - 48"

definition isLeapYear :: "int \<Rightarrow> bool" where
  "isLeapYear y = (if y mod 100 = 0 then y mod 400 = 0 else y mod 4 = 0)"

definition daysInMonth :: "int \<Rightarrow> int \<Rightarrow> int" where
  "daysInMonth y m =
     (if m = 2 then (if isLeapYear y then 29 else 28)
      else if m = 4 then 30 else if m = 6 then 30 else if m = 9 then 30 else if m = 11 then 30
      else 31)"

text \<open>
  Day number of a calendar date, after ECMA-262 (\<^verbatim>\<open>DayFromYear\<close>, the month table and
  \<^verbatim>\<open>MakeDay\<close>); the month is 1 to 12 here.
\<close>

definition dayFromYear :: "int \<Rightarrow> int" where
  "dayFromYear y =
     365 * (y - 1970) + (y - 1969) div 4 - (y - 1901) div 100 + (y - 1601) div 400"

definition daysBeforeMonth :: "int \<Rightarrow> int \<Rightarrow> int" where
  "daysBeforeMonth y m =
     (if m = 1 then 0 else if m = 2 then 31
      else (if isLeapYear y then 1 else 0) +
        (if m = 3 then 59 else if m = 4 then 90 else if m = 5 then 120 else if m = 6 then 151
         else if m = 7 then 181 else if m = 8 then 212 else if m = 9 then 243
         else if m = 10 then 273 else if m = 11 then 304 else 334))"

definition makeDay :: "int \<Rightarrow> int \<Rightarrow> int \<Rightarrow> int" where
  "makeDay y m d = dayFromYear y + daysBeforeMonth y m + d - 1"

text \<open>
  \<^verbatim>\<open>new Date(s)\<close> for a date-only ISO string \<^verbatim>\<open>YYYY-MM-DD\<close>: midnight UTC of that
  day. This is the only shape the application stores (\<^verbatim>\<open><input type="date">\<close> and
  \<^verbatim>\<open>toISOString().split("T")[0]\<close>); every other string is an invalid date in this
  model.
\<close>

definition parseDate :: "string \<Rightarrow> int option" where
  "parseDate s =
     (if length s = 10 \<and> s ! 4 = CHR ''-'' \<and> s ! 7 = CHR ''-''
         \<and> isDigit (s ! 0) \<and> isDigit (s ! 1) \<and> isDigit (s ! 2) \<and> isDigit (s ! 3)
         \<and> isDigit (s ! 5) \<and> isDigit (s ! 6) \<and> isDigit (s ! 8) \<and> isDigit (s ! 9)
      then
        (let y = 1000 * digitVal (s ! 0) + 100 * digitVal (s ! 1)
                 + 10 * digitVal (s ! 2) + digitVal (s ! 3);
             m = 10 * digitVal (s ! 5) + digitVal (s ! 6);
             d = 10 * digitVal (s ! 8) + digitVal (s ! 9)
         in if 1 \<le> m \<and> m \<le> 12 \<and> 1 \<le> d \<and> d \<le> daysInMonth y m
            then Some (makeDay y m d * msPerDay) else None)
      else None)"

text \<open>
  Calendar fields of a time value in local time (\<^verbatim>\<open>getFullYear\<close>, \<^verbatim>\<open>getMonth\<close>, the
  latter counted from 0): the civil date of the local day number.
\<close>

definition civilFromDays :: "int \<Rightarrow> int \<times> int \<times> int" where
  "civilFromDays z0 =
     (let z = z0 + 719468;
          era = z div 146097;
          doe = z - era * 146097;
          yoe = (doe - doe div 1460 + doe div 36524 - doe div 146096) div 365;
          doy = doe - (365 * yoe + yoe div 4 - yoe div 100);
          mp = (5 * doy + 2) div 153;
          d = doy - (153 * mp + 2) div 5 + 1;
          m = (if mp < 10 then mp + 3 else mp - 9);
          y = yoe + era * 400 + (if m \<le> 2 then 1 else 0)
      in (y, m, d))"

definition localTime :: "Clock \<Rightarrow> int \<Rightarrow> int" where
  "localTime clk t = t + offsetAtUtc (zone clk) t"

definition utcTime :: "Clock \<Rightarrow> int \<Rightarrow> int" where
  "utcTime clk t = t - offsetAtLocal (zone clk) t"

definition getFullYear :: "Clock \<Rightarrow> int \<Rightarrow> int" where
  "getFullYear clk t = fst (civilFromDays (localTime clk t div msPerDay))"

definition getMonth :: "Clock \<Rightarrow> int \<Rightarrow> int" where
  "getMonth clk t = fst (snd (civilFromDays (localTime clk t div msPerDay))) - 1"

text \<open>
  \<^verbatim>\<open>d.setDate(d.getDate() + k)\<close>: \<^verbatim>\<open>setDate\<close> takes the local time of \<open>d\<close>, replaces its
  day of the month (\<^verbatim>\<open>MakeDay\<close> of the year, the month and the new day number, which is
  the local day moved by \<open>k\<close> days) and keeps the time within the day; the result is read
  back as a local time. So the local time moves by \<open>k\<close> days exactly, and the time value
  moves by \<open>k\<close> times 86400000 ms only if the offset is the same at both ends.
\<close>

definition shiftDate :: "Clock \<Rightarrow> int \<Rightarrow> int \<Rightarrow> int" where
  "shiftDate clk t k = utcTime clk (localTime clk t + k * msPerDay)"

text \<open>String comparison of JavaScript (\<^verbatim>\<open><=\<close> on strings): by code units, left to right.\<close>

fun strLess :: "string \<Rightarrow> string \<Rightarrow> bool" where
  "strLess [] [] = False"
| "strLess [] (y # ys) = True"
| "strLess (x # xs) [] = False"
| "strLess (x # xs) (y # ys) =
     ((of_char x :: nat) < of_char y \<or> (x = y \<and> strLess xs ys))"

definition strLe :: "string \<Rightarrow> string \<Rightarrow> bool" where
  "strLe a b = (a = b \<or> strLess a b)"

section \<open>Main chart data (Analytics.tsx, processedData)\<close>

text \<open>
  The value of \<^verbatim>\<open>filtered\<close> after the filter logic: first by type and selected
  categories, then by the period. A comparison with an invalid date is false.
\<close>

definition filteredTransactions ::
  "Clock \<Rightarrow> Transaction list \<Rightarrow> Category list \<Rightarrow> DateFilter \<Rightarrow> string \<Rightarrow> string
   \<Rightarrow> Transaction list" where
  "filteredTransactions clk transactions selectedCategories dateFilter startDate endDate =
     (let now = nowMs clk;
          filtered = filter (\<lambda>t. type_t t = Expense \<and> category t \<in> set selectedCategories)
                       transactions
      in if dateFilter = Week then
           (let oneWeekAgo = shiftDate clk now (- 7)
            in filter (\<lambda>t. case parseDate (date t) of None \<Rightarrow> False
                            | Some d \<Rightarrow> d \<ge> oneWeekAgo) filtered)
         else if dateFilter = Month then
           (let thisMonth = getMonth clk now; thisYear = getFullYear clk now
            in filter (\<lambda>t. case parseDate (date t) of None \<Rightarrow> False
                            | Some d \<Rightarrow> getMonth clk d = thisMonth \<and> getFullYear clk d = thisYear)
                 filtered)
         else if dateFilter = Year then
           (let thisYear = getFullYear clk now
            in filter (\<lambda>t. case parseDate (date t) of None \<Rightarrow> False
                            | Some d \<Rightarrow> getFullYear clk d = thisYear) filtered)
         else if dateFilter = Custom then
           (if startDate \<noteq> [] \<and> endDate \<noteq> []
            then filter (\<lambda>t. strLe startDate (date t) \<and> strLe (date t) endDate) filtered
            else filtered)
         else filtered)"

text \<open>
  The value of \<^verbatim>\<open>isMonthlyGrouping\<close>: set for the year view, and for a custom range with
  both dates present when \<^verbatim>\<open>(end - start) / (1000 * 3600 * 24) > 60\<close>, a comparison that
  is false when either date is invalid.
\<close>

definition isMonthlyGrouping :: "DateFilter \<Rightarrow> string \<Rightarrow> string \<Rightarrow> bool" where
  "isMonthlyGrouping dateFilter startDate endDate =
     (if dateFilter = Week then False
      else if dateFilter = Month then False
      else if dateFilter = Year then True
      else if dateFilter = Custom then
        (if startDate \<noteq> [] \<and> endDate \<noteq> []
         then (case parseDate startDate of None \<Rightarrow> False
               | Some start \<Rightarrow>
                   (case parseDate endDate of None \<Rightarrow> False
                    | Some end' \<Rightarrow>
                        (let daysDiff = real_of_int (end' - start) / (1000 * 3600 * 24)
                         in daysDiff > 60)))
         else False)
      else False)"


fun setProp :: "('k \<times> 'v) list \<Rightarrow> 'k \<Rightarrow> 'v \<Rightarrow> ('k \<times> 'v) list" where
  "setProp [] k v = [(k, v)]"
| "setProp ((k', v') # rest) k v =
     (if k' = k then (k, v) # rest else (k', v') # setProp rest k v)"





text \<open>
  Dashboard: \<^verbatim>\<open>thisMonthTrans\<close>, the transactions of the current month and year.
\<close>

definition thisMonthTrans :: "Clock \<Rightarrow> Transaction list \<Rightarrow> Transaction list" where
  "thisMonthTrans clk transactions =
     (let currentMonth = getMonth clk (nowMs clk); currentYear = getFullYear clk (nowMs clk)
      in filter (\<lambda>t. case parseDate (date t) of None \<Rightarrow> False
                      | Some d \<Rightarrow> getMonth clk d = currentMonth \<and> getFullYear clk d = currentYear)
           transactions)"

text \<open>
  The calendar day (UTC) of a transaction date and of the clock, to state the window of
  the week filter.
\<close>

definition dayNotBefore :: "int \<Rightarrow> string \<Rightarrow> bool" where
  "dayNotBefore d s = (case parseDate s of None \<Rightarrow> False | Some t \<Rightarrow> d \<le> t div msPerDay)"

definition dayNotAfter :: "int \<Rightarrow> string \<Rightarrow> bool" where
  "dayNotAfter d s = (case parseDate s of None \<Rightarrow> False | Some t \<Rightarrow> t div msPerDay \<le> d)"

definition today :: "Clock \<Rightarrow> int" where
  "today clk = nowMs clk div msPerDay"

text \<open>The calendar day of the clock in local time.\<close>

definition localToday :: "Clock \<Rightarrow> int" where
  "localToday clk = localTime clk (nowMs clk) div msPerDay"

section \<open>JSON values\<close>

text \<open>
  The values \<^verbatim>\<open>JSON.parse\<close> returns and \<^verbatim>\<open>JSON.stringify\<close> prints, which are also
  the values the transaction list holds at run time (\<^verbatim>\<open>handleImportData\<close> stores the
  parsed array as it is).

  \<^item> A number is a JavaScript number: a finite value, taken as a real number (the rounding
    of double precision is not modelled, and \<open>-0\<close> is \<open>0\<close>), or one of the three values
    that are not finite.
  \<^item> A string is the list of the bytes of its UTF-8 encoding, so a character outside
    ASCII is two to four bytes; a surrogate without its partner has the three bytes of
    the generalised encoding.
  \<^item> An object is the list of its properties in property order.
\<close>

datatype number = Finite real | PosInfinity | NegInfinity | NotANumber

datatype json =
  JNull | JBool bool | JNum number | JStr string | JArr "json list" | JObj "(string \<times> json) list"

section \<open>JSON export and import (Analytics.tsx, App.tsx)\<close>

text \<open>
  The two functions of the platform, \<^verbatim>\<open>JSON.stringify\<close> and \<^verbatim>\<open>JSON.parse\<close>, are
  parameters of the handlers: \<open>JSON_stringify\<close> gives the text of a value and
  \<open>JSON_parse\<close> the value of a text, or \<open>None\<close> when it throws a SyntaxError.
\<close>

datatype Notice =
  AlertNotTransactionFormat | AlertImportNotConnected | AlertNotAnArray | AlertInvalidFile
  | AlertRestored nat

record AppState =
  transactionsState :: "json list"
  notices :: "Notice list"

definition alert :: "Notice \<Rightarrow> AppState \<Rightarrow> AppState" where
  "alert n st = st\<lparr>notices := notices st @ [n]\<rparr>"

text \<open>
  \<^verbatim>\<open>handleExportJSON\<close>: the content of the downloaded file,
  \<^verbatim>\<open>JSON.stringify(transactions, null, 2)\<close>.
\<close>

definition handleExportJSON :: "(json \<Rightarrow> string) \<Rightarrow> json list \<Rightarrow> string" where
  "handleExportJSON JSON_stringify transactions = JSON_stringify (JArr transactions)"

text \<open>\<^verbatim>\<open>handleImportData\<close>: \<^verbatim>\<open>setTransactions(importedData)\<close>, then the alert.\<close>

definition handleImportData :: "json list \<Rightarrow> AppState \<Rightarrow> AppState" where
  "handleImportData importedData st =
     alert (AlertRestored (length importedData)) (st\<lparr>transactionsState := importedData\<rparr>)"

text \<open>
  Truthiness of a value, and \<^verbatim>\<open>!x.key\<close>: reading a property of \<^verbatim>\<open>null\<close> throws a
  TypeError (\<open>None\<close>); a value without the property gives \<^verbatim>\<open>undefined\<close>, which is falsy.
\<close>

definition truthyNumber :: "number \<Rightarrow> bool" where
  "truthyNumber n =
     (case n of Finite x \<Rightarrow> x \<noteq> 0 | PosInfinity \<Rightarrow> True | NegInfinity \<Rightarrow> True
      | NotANumber \<Rightarrow> False)"

definition truthy :: "json \<Rightarrow> bool" where
  "truthy v =
     (case v of JNull \<Rightarrow> False | JBool b \<Rightarrow> b | JNum n \<Rightarrow> truthyNumber n | JStr s \<Rightarrow> s \<noteq> []
      | JArr _ \<Rightarrow> True | JObj _ \<Rightarrow> True)"

definition notProp :: "json \<Rightarrow> string \<Rightarrow> bool option" where
  "notProp x k =
     (case x of
        JNull \<Rightarrow> None
      | JObj kvs \<Rightarrow> (case map_of kvs k of None \<Rightarrow> Some True | Some v \<Rightarrow> Some (\<not> truthy v))
      | _ \<Rightarrow> Some True)"

text \<open>
  \<^verbatim>\<open>parsedData.length > 0 && (!parsedData[0].amount || !parsedData[0].date)\<close>;
  \<open>None\<close> when the evaluation throws.
\<close>

definition firstLooksWrong :: "json list \<Rightarrow> bool option" where
  "firstLooksWrong parsedData =
     (case parsedData of
        [] \<Rightarrow> Some False
      | first # _ \<Rightarrow>
          (case notProp first ''amount'' of
             None \<Rightarrow> None
           | Some True \<Rightarrow> Some True
           | Some False \<Rightarrow> notProp first ''date''))"

text \<open>\<^verbatim>\<open>Array.isArray\<close>.\<close>

definition isArray :: "json \<Rightarrow> bool" where
  "isArray v = (case v of JArr _ \<Rightarrow> True | _ \<Rightarrow> False)"

text \<open>
  The \<^verbatim>\<open>onload\<close> callback of \<^verbatim>\<open>handleFileChange\<close> on the text of the chosen file.
  \<open>onImportData\<close> is the optional prop, \<open>confirmed\<close> the answer to \<^verbatim>\<open>window.confirm\<close>.
  A syntax error of \<^verbatim>\<open>JSON.parse\<close> and a TypeError of the check are caught by the
  \<^verbatim>\<open>catch\<close> block.
\<close>

definition handleFileChange ::
  "(string \<Rightarrow> json option) \<Rightarrow> (json list \<Rightarrow> AppState \<Rightarrow> AppState) option \<Rightarrow> bool \<Rightarrow> string
   \<Rightarrow> AppState \<Rightarrow> AppState" where
  "handleFileChange JSON_parse onImportData confirmed content st =
     (case JSON_parse content of
        None \<Rightarrow> alert AlertInvalidFile st
      | Some parsedData \<Rightarrow>
          if isArray parsedData then
            (case parsedData of
               JArr elements \<Rightarrow>
                 (case firstLooksWrong elements of
                    None \<Rightarrow> alert AlertInvalidFile st
                  | Some True \<Rightarrow> alert AlertNotTransactionFormat st
                  | Some False \<Rightarrow>
                      (case onImportData of
                         Some importData \<Rightarrow> if confirmed then importData elements st else st
                       | None \<Rightarrow> alert AlertImportNotConnected st))
             | _ \<Rightarrow> st)
          else alert AlertNotAnArray st)"

text \<open>
  A transaction record of the data model as the object the program holds: its six
  properties, in the order of the interface (the handlers do not depend on the order).
  The record has whole amounts; a transaction whose amount is not a whole number or not
  finite (\<^verbatim>\<open>parseInt\<close> of an entry of 309 digits or more is \<^verbatim>\<open>Infinity\<close>, which the
  check \<^verbatim>\<open>!rawAmount || isNaN(rawAmount)\<close> of the form lets through) is an object with
  that number as its \<open>amount\<close>.
\<close>

definition categoryName :: "Category \<Rightarrow> string" where
  "categoryName c =
     (case c of Food \<Rightarrow> ''food'' | Transport \<Rightarrow> ''transport'' | Utilities \<Rightarrow> ''utilities''
      | Shopping \<Rightarrow> ''shopping'' | Entertainment \<Rightarrow> ''entertainment'' | Health \<Rightarrow> ''health''
      | Education \<Rightarrow> ''education'' | IncomeCat \<Rightarrow> ''income'' | Other \<Rightarrow> ''other'')"

definition typeName :: "TransactionType \<Rightarrow> string" where
  "typeName ty = (case ty of Expense \<Rightarrow> ''expense'' | Income \<Rightarrow> ''income'')"

definition transactionJson :: "Transaction \<Rightarrow> json" where
  "transactionJson t =
     JObj [(''id'', JStr (id_t t)), (''amount'', JNum (Finite (of_int (amount t)))),
           (''type'', JStr (typeName (type_t t))), (''category'', JStr (categoryName (category t))),
           (''date'', JStr (date t)), (''note'', JStr (note_t t))]"

section \<open>A reference codec\<close>

text \<open>
  An executable \<^verbatim>\<open>JSON.stringify(value, null, 2)\<close> and \<^verbatim>\<open>JSON.parse\<close> after ECMA-262,
  to run the handlers on concrete lists and files. What it leaves out is floating point:
  the printer covers the numbers whose digits do not depend on it (the whole numbers up
  to \<open>2^53\<close>, and the values that are not finite, which are printed as \<^verbatim>\<open>null\<close>), and
  the parser gives a number literal its exact value. The theorems about the handlers do
  not depend on it: they hold for every \<open>JSON_stringify\<close> and \<open>JSON_parse\<close>.
\<close>

abbreviation (input) dquote :: char where "dquote \<equiv> CHR 0x22"
abbreviation (input) backslash :: char where "backslash \<equiv> CHR 0x5C"
abbreviation (input) newline :: char where "newline \<equiv> CHR 0x0A"

subsection \<open>Printing\<close>

text \<open>
  \<^verbatim>\<open>Number::toString\<close> of a whole number: its decimal digits, with a minus sign if
  negative.
\<close>

definition digitChar :: "int \<Rightarrow> char" where
  "digitChar d = char_of (48 + d)"

function showDigits :: "int \<Rightarrow> string" where
  "showDigits n =
     (if n < 10 then [digitChar n] else showDigits (n div 10) @ [digitChar (n mod 10)])"
  by pat_completeness auto
termination
  by (relation "measure nat") auto

declare showDigits.simps [simp del]

definition showInt :: "int \<Rightarrow> string" where
  "showInt i = (if i < 0 then CHR ''-'' # showDigits (- i) else showDigits i)"

definition isSafeInteger :: "real \<Rightarrow> bool" where
  "isSafeInteger x = (x = of_int \<lfloor>x\<rfloor> \<and> \<bar>x\<bar> \<le> 9007199254740992)"

definition showNumber :: "number \<Rightarrow> string" where
  "showNumber n =
     (case n of Finite x \<Rightarrow> showInt \<lfloor>x\<rfloor> | PosInfinity \<Rightarrow> ''null'' | NegInfinity \<Rightarrow> ''null''
      | NotANumber \<Rightarrow> ''null'')"

definition hexChar :: "nat \<Rightarrow> char" where
  "hexChar d = (if d < 10 then char_of (48 + d) else char_of (87 + d))"

text \<open>
  \<^verbatim>\<open>QuoteJSONString\<close>: the two-character escapes, \<^verbatim>\<open>\u00XX\<close> for the other control
  characters, every other byte as it is (the bytes of a character outside ASCII are
  printed as they are).
\<close>

definition quoteChar :: "char \<Rightarrow> string" where
  "quoteChar c =
     (if c = CHR 0x08 then [backslash, CHR ''b'']
      else if c = CHR 0x09 then [backslash, CHR ''t'']
      else if c = CHR 0x0A then [backslash, CHR ''n'']
      else if c = CHR 0x0C then [backslash, CHR ''f'']
      else if c = CHR 0x0D then [backslash, CHR ''r'']
      else if c = dquote then [backslash, dquote]
      else if c = backslash then [backslash, backslash]
      else if (of_char c :: nat) < 32
        then [backslash, CHR ''u'', CHR ''0'', CHR ''0'',
              hexChar (of_char c div 16), hexChar (of_char c mod 16)]
      else [c])"

definition quoteJSONString :: "string \<Rightarrow> string" where
  "quoteJSONString s = dquote # concat (map quoteChar s) @ [dquote]"

fun joinWith :: "string \<Rightarrow> string list \<Rightarrow> string" where
  "joinWith sep [] = []"
| "joinWith sep [x] = x"
| "joinWith sep (x # y # ys) = x @ sep @ joinWith sep (y # ys)"

text \<open>
  \<^verbatim>\<open>SerializeJSONProperty\<close> with the gap of two spaces; \<open>ind\<close> is the current
  indentation. An empty array is \<^verbatim>\<open>[]\<close> and an empty object \<^verbatim>\<open>{}\<close>; otherwise every
  element or property is on a line of its own, indented one step further.
\<close>

fun serializeJSON :: "string \<Rightarrow> json \<Rightarrow> string" where
  "serializeJSON ind JNull = ''null''"
| "serializeJSON ind (JBool b) = (if b then ''true'' else ''false'')"
| "serializeJSON ind (JNum n) = showNumber n"
| "serializeJSON ind (JStr s) = quoteJSONString s"
| "serializeJSON ind (JArr xs) =
     (if xs = [] then ''[]''
      else ''['' @ newline # (ind @ ''  '')
           @ joinWith (CHR '','' # newline # (ind @ ''  ''))
               (map (serializeJSON (ind @ ''  '')) xs)
           @ newline # ind @ '']'')"
| "serializeJSON ind (JObj kvs) =
     (if kvs = [] then ''{}''
      else ''{'' @ newline # (ind @ ''  '')
           @ joinWith (CHR '','' # newline # (ind @ ''  ''))
               (map (\<lambda>(k, v). quoteJSONString k @ '': '' @ serializeJSON (ind @ ''  '') v) kvs)
           @ newline # ind @ ''}'')"

text \<open>
  The numbers and the strings of a value: \<open>allNumbers P v\<close> when every number in \<open>v\<close>
  satisfies \<open>P\<close>, \<open>allStrings P v\<close> when every string and every property key does.
\<close>

fun allNumbers :: "(number \<Rightarrow> bool) \<Rightarrow> json \<Rightarrow> bool" where
  "allNumbers P (JNum n) = P n"
| "allNumbers P (JArr xs) = list_all (allNumbers P) xs"
| "allNumbers P (JObj kvs) = list_all (\<lambda>kv. allNumbers P (snd kv)) kvs"
| "allNumbers P v = True"

definition printedExactly :: "number \<Rightarrow> bool" where
  "printedExactly n =
     (case n of Finite x \<Rightarrow> isSafeInteger x | PosInfinity \<Rightarrow> True | NegInfinity \<Rightarrow> True
      | NotANumber \<Rightarrow> True)"

fun allStrings :: "(string \<Rightarrow> bool) \<Rightarrow> json \<Rightarrow> bool" where
  "allStrings P (JStr s) = P s"
| "allStrings P (JArr xs) = list_all (allStrings P) xs"
| "allStrings P (JObj kvs) = list_all (\<lambda>kv. P (fst kv) \<and> allStrings P (snd kv)) kvs"
| "allStrings P v = True"

text \<open>
  \<^verbatim>\<open>JSON.stringify\<close> prints a surrogate without its partner as the escape \<^verbatim>\<open>\udXXX\<close>.
  In the encoding of strings used here such a surrogate is the byte \<open>ED\<close> followed by a
  byte from \<open>A0\<close> on.
\<close>

fun noLoneSurrogate :: "string \<Rightarrow> bool" where
  "noLoneSurrogate (c # d # cs) =
     ((if c = CHR 0xED then int (of_char d) < 160 else True) \<and> noLoneSurrogate (d # cs))"
| "noLoneSurrogate cs = True"

text \<open>
  The reference printer is for the values whose finite numbers are whole numbers up to
  \<open>2^53\<close> and whose strings have no surrogate without its partner; for any other value
  it gives no text.
\<close>

definition refStringify :: "json \<Rightarrow> string" where
  "refStringify v =
     (if allNumbers printedExactly v \<and> allStrings noLoneSurrogate v then serializeJSON [] v
      else [])"

subsection \<open>Parsing\<close>

definition isWs :: "char \<Rightarrow> bool" where
  "isWs c = (c = CHR '' '' \<or> c = CHR 0x09 \<or> c = CHR 0x0A \<or> c = CHR 0x0D)"

fun skipWs :: "string \<Rightarrow> string" where
  "skipWs [] = []"
| "skipWs (c # cs) = (if isWs c then skipWs cs else c # cs)"

definition hexVal :: "char \<Rightarrow> int option" where
  "hexVal c =
     (let n = int (of_char c)
      in if 48 \<le> n \<and> n \<le> 57 then Some (n - 48)
         else if 97 \<le> n \<and> n \<le> 102 then Some (n - 87)
         else if 65 \<le> n \<and> n \<le> 70 then Some (n - 55)
         else None)"

definition hexCode :: "char \<Rightarrow> char \<Rightarrow> char \<Rightarrow> char \<Rightarrow> int option" where
  "hexCode h1 h2 h3 h4 =
     (case hexVal h1 of
        None \<Rightarrow> None
      | Some a \<Rightarrow>
          (case hexVal h2 of
             None \<Rightarrow> None
           | Some b \<Rightarrow>
               (case hexVal h3 of
                  None \<Rightarrow> None
                | Some c \<Rightarrow>
                    (case hexVal h4 of
                       None \<Rightarrow> None
                     | Some d \<Rightarrow> Some (4096 * a + 256 * b + 16 * c + d)))))"

text \<open>
  The bytes of a code point in (generalised) UTF-8. A \<^verbatim>\<open>\uXXXX\<close> escape of a high
  surrogate that is followed by the escape of a low surrogate is one code point above
  \<open>0xFFFF\<close>.
\<close>

definition utf8 :: "int \<Rightarrow> string" where
  "utf8 c =
     (if c < 128 then [char_of c]
      else if c < 2048 then [char_of (192 + c div 64), char_of (128 + c mod 64)]
      else if c < 65536
        then [char_of (224 + c div 4096), char_of (128 + c div 64 mod 64),
              char_of (128 + c mod 64)]
      else [char_of (240 + c div 262144), char_of (128 + c div 4096 mod 64),
            char_of (128 + c div 64 mod 64), char_of (128 + c mod 64)])"

definition isHighSurrogate :: "int \<Rightarrow> bool" where
  "isHighSurrogate x = (55296 \<le> x \<and> x \<le> 56319)"

definition lowSurrogate ::
  "char \<Rightarrow> char \<Rightarrow> char \<Rightarrow> char \<Rightarrow> char \<Rightarrow> char \<Rightarrow> int option" where
  "lowSurrogate b u g1 g2 g3 g4 =
     (if b = backslash \<and> u = CHR ''u''
      then (case hexCode g1 g2 g3 g4 of
              None \<Rightarrow> None
            | Some y \<Rightarrow> if 56320 \<le> y \<and> y \<le> 57343 then Some y else None)
      else None)"

definition pairCode :: "int \<Rightarrow> int \<Rightarrow> int" where
  "pairCode x y = 65536 + (x - 55296) * 1024 + (y - 56320)"

definition unescape :: "char \<Rightarrow> char option" where
  "unescape e =
     (if e = dquote then Some dquote
      else if e = backslash then Some backslash
      else if e = CHR ''/'' then Some (CHR ''/'')
      else if e = CHR ''b'' then Some (CHR 0x08)
      else if e = CHR ''f'' then Some (CHR 0x0C)
      else if e = CHR ''n'' then Some (CHR 0x0A)
      else if e = CHR ''r'' then Some (CHR 0x0D)
      else if e = CHR ''t'' then Some (CHR 0x09)
      else None)"

definition consResult :: "'a \<Rightarrow> ('a list \<times> string) option \<Rightarrow> ('a list \<times> string) option" where
  "consResult x r = (case r of None \<Rightarrow> None | Some (xs, rest) \<Rightarrow> Some (x # xs, rest))"

definition appendResult :: "string \<Rightarrow> (string \<times> string) option \<Rightarrow> (string \<times> string) option" where
  "appendResult bytes r = (case r of None \<Rightarrow> None | Some (s, rest) \<Rightarrow> Some (bytes @ s, rest))"

text \<open>
  The characters of a string after its opening quote, up to the closing quote. A raw
  control character and an unknown escape are syntax errors.
\<close>

fun parseString :: "string \<Rightarrow> (string \<times> string) option" where
  "parseString [] = None"
| "parseString (c # cs) =
     (if c = dquote then Some ([], cs)
      else if c = backslash then
        (case cs of
           [] \<Rightarrow> None
         | e # r \<Rightarrow>
             if e = CHR ''u'' then
               (case r of
                  h1 # h2 # h3 # h4 # r1 \<Rightarrow>
                    (case hexCode h1 h2 h3 h4 of
                       None \<Rightarrow> None
                     | Some x \<Rightarrow>
                         if isHighSurrogate x then
                           (case r1 of
                              b # u # g1 # g2 # g3 # g4 # r2 \<Rightarrow>
                                (case lowSurrogate b u g1 g2 g3 g4 of
                                   Some y \<Rightarrow> appendResult (utf8 (pairCode x y)) (parseString r2)
                                 | None \<Rightarrow> appendResult (utf8 x) (parseString r1))
                            | _ \<Rightarrow> appendResult (utf8 x) (parseString r1))
                         else appendResult (utf8 x) (parseString r1))
                | _ \<Rightarrow> None)
             else (case unescape e of
                     None \<Rightarrow> None
                   | Some ch \<Rightarrow> consResult ch (parseString r)))
      else if (of_char c :: nat) < 32 then None
      else consResult c (parseString cs))"

text \<open>
  A number literal: an optional minus sign, the digits of the whole part without a
  leading zero, an optional fraction and an optional exponent. Its value is exact (a
  literal too large for double precision, which \<^verbatim>\<open>JSON.parse\<close> reads as infinity, keeps
  its value here).
\<close>

definition digitsValue :: "string \<Rightarrow> int" where
  "digitsValue ds = foldl (\<lambda>a c. 10 * a + digitVal c) 0 ds"

definition parseFraction :: "string \<Rightarrow> (string \<times> string) option" where
  "parseFraction s =
     (case s of
        [] \<Rightarrow> Some ([], s)
      | c # cs \<Rightarrow>
          if c = CHR ''.''
          then (if takeWhile isDigit cs = [] then None
                else Some (takeWhile isDigit cs, dropWhile isDigit cs))
          else Some ([], s))"

definition parseExponentDigits :: "int \<Rightarrow> string \<Rightarrow> (int \<times> string) option" where
  "parseExponentDigits sign s =
     (if takeWhile isDigit s = [] then None
      else Some (sign * digitsValue (takeWhile isDigit s), dropWhile isDigit s))"

definition parseExponent :: "string \<Rightarrow> (int \<times> string) option" where
  "parseExponent s =
     (case s of
        [] \<Rightarrow> Some (0, s)
      | c # cs \<Rightarrow>
          if c = CHR ''e'' \<or> c = CHR ''E''
          then (case cs of
                  [] \<Rightarrow> None
                | g # gs \<Rightarrow>
                    if g = CHR ''+'' then parseExponentDigits 1 gs
                    else if g = CHR ''-'' then parseExponentDigits (- 1) gs
                    else parseExponentDigits 1 cs)
          else Some (0, s))"

definition power10 :: "int \<Rightarrow> real" where
  "power10 e = (if 0 \<le> e then 10 ^ nat e else 1 / 10 ^ nat (- e))"

definition parseUnsigned :: "string \<Rightarrow> (real \<times> string) option" where
  "parseUnsigned s =
     (let ds = takeWhile isDigit s
      in if ds = [] then None
         else if hd ds = CHR ''0'' \<and> length ds > 1 then None
         else (case parseFraction (dropWhile isDigit s) of
                 None \<Rightarrow> None
               | Some (fs, r1) \<Rightarrow>
                   (case parseExponent r1 of
                      None \<Rightarrow> None
                    | Some (e, r2) \<Rightarrow>
                        Some (of_int (digitsValue (ds @ fs)) * power10 (e - int (length fs)),
                              r2))))"

definition parseNumber :: "string \<Rightarrow> (json \<times> string) option" where
  "parseNumber s =
     (case s of
        [] \<Rightarrow> None
      | c # cs \<Rightarrow>
          if c = CHR ''-''
          then (case parseUnsigned cs of
                  None \<Rightarrow> None
                | Some (x, rest) \<Rightarrow> Some (JNum (Finite (- x)), rest))
          else (case parseUnsigned s of
                  None \<Rightarrow> None
                | Some (x, rest) \<Rightarrow> Some (JNum (Finite x), rest)))"

fun dropPrefix :: "string \<Rightarrow> string \<Rightarrow> string option" where
  "dropPrefix [] s = Some s"
| "dropPrefix (p # ps) [] = None"
| "dropPrefix (p # ps) (c # cs) = (if p = c then dropPrefix ps cs else None)"

definition parseLiteral :: "string \<Rightarrow> (json \<times> string) option" where
  "parseLiteral s =
     (case dropPrefix ''null'' s of
        Some r \<Rightarrow> Some (JNull, r)
      | None \<Rightarrow>
          (case dropPrefix ''true'' s of
             Some r \<Rightarrow> Some (JBool True, r)
           | None \<Rightarrow>
               (case dropPrefix ''false'' s of
                  Some r \<Rightarrow> Some (JBool False, r)
                | None \<Rightarrow> None)))"

text \<open>
  Defining a property on the object under construction: a key that is already there keeps
  its place and takes the new value, as in \<^verbatim>\<open>JSON.parse\<close>.
\<close>

definition makeObject :: "(string \<times> json) list \<Rightarrow> json" where
  "makeObject members = JObj (foldl (\<lambda>acc (k, v). setProp acc k v) [] members)"

text \<open>
  The recursive descent. The first argument bounds the depth of the calls; \<open>refParse\<close>
  starts it at the length of the text plus one. Every nested call belongs to a bracket or
  to a separator of the text, and for the printed form of a value the bound is proved to
  be enough (\<open>parseCost_length\<close> below).
\<close>

fun parseValue :: "nat \<Rightarrow> string \<Rightarrow> (json \<times> string) option"
  and parseElements :: "nat \<Rightarrow> string \<Rightarrow> (json list \<times> string) option"
  and parseMembers :: "nat \<Rightarrow> string \<Rightarrow> ((string \<times> json) list \<times> string) option"
where
  "parseValue 0 s = None"
| "parseValue (Suc n) s =
     (case skipWs s of
        [] \<Rightarrow> None
      | c # cs \<Rightarrow>
          if c = CHR ''{'' then
            (case skipWs cs of
               [] \<Rightarrow> None
             | c' # r \<Rightarrow>
                 if c' = CHR ''}'' then Some (JObj [], r)
                 else (case parseMembers n cs of
                         None \<Rightarrow> None
                       | Some (members, rest) \<Rightarrow> Some (makeObject members, rest)))
          else if c = CHR ''['' then
            (case skipWs cs of
               [] \<Rightarrow> None
             | c' # r \<Rightarrow>
                 if c' = CHR '']'' then Some (JArr [], r)
                 else (case parseElements n cs of
                         None \<Rightarrow> None
                       | Some (elements, rest) \<Rightarrow> Some (JArr elements, rest)))
          else if c = dquote then
            (case parseString cs of None \<Rightarrow> None | Some (str, rest) \<Rightarrow> Some (JStr str, rest))
          else if c = CHR ''-'' \<or> isDigit c then parseNumber (c # cs)
          else parseLiteral (c # cs))"
| "parseElements 0 s = None"
| "parseElements (Suc n) s =
     (case parseValue n s of
        None \<Rightarrow> None
      | Some (v, r) \<Rightarrow>
          (case skipWs r of
             [] \<Rightarrow> None
           | c # r' \<Rightarrow>
               if c = CHR '','' then consResult v (parseElements n r')
               else if c = CHR '']'' then Some ([v], r')
               else None))"
| "parseMembers 0 s = None"
| "parseMembers (Suc n) s =
     (case skipWs s of
        [] \<Rightarrow> None
      | q # cs \<Rightarrow>
          if q = dquote then
            (case parseString cs of
               None \<Rightarrow> None
             | Some (k, r) \<Rightarrow>
                 (case skipWs r of
                    [] \<Rightarrow> None
                  | colon # r1 \<Rightarrow>
                      if colon = CHR '':'' then
                        (case parseValue n r1 of
                           None \<Rightarrow> None
                         | Some (v, r2) \<Rightarrow>
                             (case skipWs r2 of
                                [] \<Rightarrow> None
                              | c # r3 \<Rightarrow>
                                  if c = CHR '','' then consResult (k, v) (parseMembers n r3)
                                  else if c = CHR ''}'' then Some ([(k, v)], r3)
                                  else None))
                      else None))
          else None)"

definition refParse :: "string \<Rightarrow> json option" where
  "refParse text =
     (case parseValue (Suc (length text)) text of
        None \<Rightarrow> None
      | Some (v, rest) \<Rightarrow> if skipWs rest = [] then Some v else None)"

text \<open>
  A value is well formed when no object has two properties with the same key, as is the
  case for every object of the running program.
\<close>

fun wfJson :: "json \<Rightarrow> bool" where
  "wfJson (JArr xs) = list_all wfJson xs"
| "wfJson (JObj kvs) = (distinct (map fst kvs) \<and> list_all (\<lambda>kv. wfJson (snd kv)) kvs)"
| "wfJson v = True"

definition safeInteger :: "number \<Rightarrow> bool" where
  "safeInteger n =
     (case n of Finite x \<Rightarrow> isSafeInteger x | PosInfinity \<Rightarrow> False | NegInfinity \<Rightarrow> False
      | NotANumber \<Rightarrow> False)"

text \<open>A bound on the depth of calls the descent makes on the printed form of a value.\<close>

fun parseCost :: "json \<Rightarrow> nat" where
  "parseCost (JArr xs) = sum_list (map (\<lambda>x. 2 + parseCost x) xs)"
| "parseCost (JObj kvs) = sum_list (map (\<lambda>kv. 2 + parseCost (snd kv)) kvs)"
| "parseCost v = 0"

text \<open>
  What may follow a printed number for the parser to stop there: the end of the text, or a
  character that is neither a digit nor the start of a fraction or an exponent.
\<close>

definition numEnd :: "string \<Rightarrow> bool" where
  "numEnd rest =
     (case rest of [] \<Rightarrow> True
      | c # _ \<Rightarrow> \<not> isDigit c \<and> c \<noteq> CHR ''.'' \<and> c \<noteq> CHR ''e'' \<and> c \<noteq> CHR ''E'')"

section \<open>Theorems\<close>

subsection \<open>Derived totals\<close>

lemma reduceAmount_acc: "foldl (\<lambda>sum t. sum + amount t) a ts = a + sum_list (map amount ts)"
  by (induction ts arbitrary: a) simp_all

lemma reduceAmount_sum: "reduceAmount ts = sum_list (map amount ts)"
  by (simp add: reduceAmount_def reduceAmount_acc)

lemma listTotals_acc:
  "foldl listTotalsStep acc ts =
     \<lparr>totalIncome = totalIncome acc + sum_list (map amount (filter (\<lambda>t. type_t t = Income) ts)),
      totalExpense = totalExpense acc + sum_list (map amount (filter (\<lambda>t. type_t t = Expense) ts))\<rparr>"
proof (induction ts arbitrary: acc)
  case Nil
  show ?case by simp
next
  case (Cons t ts)
  have step: "foldl listTotalsStep acc (t # ts) = foldl listTotalsStep (listTotalsStep acc t) ts"
    by simp
  show ?case
    unfolding step Cons.IH by (cases "type_t t") (simp_all add: listTotalsStep_def)
qed

text \<open>
  C4. For every transaction subset, both derived-totals computations (the single reduce of
  the transaction list view and the filter-then-reduce of the dashboard) return
  totalIncome = the sum of amount over the income transactions, totalExpense = the sum of
  amount over the expense transactions, and balance = totalIncome - totalExpense.
\<close>

theorem derived_totals:
  "totalIncome (listTotals ts) = sum_list (map amount (filter (\<lambda>t. type_t t = Income) ts))
   \<and> totalExpense (listTotals ts) = sum_list (map amount (filter (\<lambda>t. type_t t = Expense) ts))
   \<and> listBalance ts = sum_list (map amount (filter (\<lambda>t. type_t t = Income) ts))
                      - sum_list (map amount (filter (\<lambda>t. type_t t = Expense) ts))
   \<and> dashTotalIncome ts = sum_list (map amount (filter (\<lambda>t. type_t t = Income) ts))
   \<and> dashTotalExpense ts = sum_list (map amount (filter (\<lambda>t. type_t t = Expense) ts))
   \<and> dashBalance ts = dashTotalIncome ts - dashTotalExpense ts"
  by (simp add: listTotals_def listBalance_def listTotals_acc dashTotalIncome_def
      dashTotalExpense_def dashBalance_def reduceAmount_sum)

subsection \<open>Amount input formatting\<close>

lemma digits_insertCommas: "filter isDigit (insertCommas p cs) = filter isDigit cs"
  by (induction cs arbitrary: p) (simp_all add: isDigit_def)

lemma strip_insertCommas:
  "CHR '','' \<notin> set cs \<Longrightarrow> stripCommas (insertCommas p cs) = cs"
  by (induction cs arbitrary: p) (auto simp: stripCommas_def)

lemma comma_not_digit: "isDigit c \<Longrightarrow> c \<noteq> CHR '',''"
  by (auto simp: isDigit_def)

text \<open>
  C10. For every input string, the digit characters of \<open>formatInputNumber s\<close>, in order,
  are exactly the digit characters of \<open>s\<close>; and removing the commas from the formatted
  string, as \<open>handleSubmit\<close> does before parsing, gives back exactly the digits of \<open>s\<close>.
\<close>

theorem formatInputNumber_digits:
  "filter isDigit (formatInputNumber s) = filter isDigit s
   \<and> stripCommas (formatInputNumber s) = filter isDigit s"
proof -
  have "CHR '','' \<notin> set (filter isDigit s)"
    using comma_not_digit by auto
  then show ?thesis
    by (simp add: formatInputNumber_def digits_insertCommas strip_insertCommas)
      (simp add: stripCommas_def)
qed

subsection \<open>Editing a transaction\<close>

text \<open>
  C9. For every transaction list \<open>ts\<close> and every updated transaction \<open>u\<close>, the edit keeps
  the length of the list, and at every position the entry is \<open>u\<close> when the old entry had
  the id of \<open>u\<close> and the old entry itself otherwise (so the order is kept, entries with
  another id are unchanged, and every entry with the id of \<open>u\<close> is replaced by \<open>u\<close>).
\<close>

theorem handleEditTransaction_frame:
  "length (handleEditTransaction u ts) = length ts
   \<and> (\<forall>i < length ts.
        handleEditTransaction u ts ! i = (if id_t (ts ! i) = id_t u then u else ts ! i))"
  by (simp add: handleEditTransaction_def)

theorem handleEditTransaction_frame_witness:
  "(1::nat) < length
       [\<lparr>id_t = ''a'', amount = 50000, type_t = Expense, category = Food,
          date = ''2024-01-01'', note_t = ''lunch''\<rparr>,
        \<lparr>id_t = ''b'', amount = 7000000, type_t = Income, category = IncomeCat,
          date = ''2024-01-02'', note_t = ''salary''\<rparr>]
   \<and> handleEditTransaction
       \<lparr>id_t = ''a'', amount = 65000, type_t = Expense, category = Transport,
         date = ''2024-01-03'', note_t = ''taxi''\<rparr>
       [\<lparr>id_t = ''a'', amount = 50000, type_t = Expense, category = Food,
          date = ''2024-01-01'', note_t = ''lunch''\<rparr>,
        \<lparr>id_t = ''b'', amount = 7000000, type_t = Income, category = IncomeCat,
          date = ''2024-01-02'', note_t = ''salary''\<rparr>]
     = [\<lparr>id_t = ''a'', amount = 65000, type_t = Expense, category = Transport,
          date = ''2024-01-03'', note_t = ''taxi''\<rparr>,
        \<lparr>id_t = ''b'', amount = 7000000, type_t = Income, category = IncomeCat,
          date = ''2024-01-02'', note_t = ''salary''\<rparr>]"
proof -
  let ?u = "\<lparr>id_t = ''a'', amount = 65000, type_t = Expense, category = Transport,
         date = ''2024-01-03'', note_t = ''taxi''\<rparr>"
  let ?ts = "[\<lparr>id_t = ''a'', amount = 50000, type_t = Expense, category = Food,
          date = ''2024-01-01'', note_t = ''lunch''\<rparr>,
        \<lparr>id_t = ''b'', amount = 7000000, type_t = Income, category = IncomeCat,
          date = ''2024-01-02'', note_t = ''salary''\<rparr>]"
  have len: "length (handleEditTransaction ?u ?ts) = 2"
    using handleEditTransaction_frame [of ?u ?ts] by simp
  have at0: "handleEditTransaction ?u ?ts ! 0 = ?u"
    using handleEditTransaction_frame [of ?u ?ts, THEN conjunct2, rule_format, of 0] by simp
  have at1: "handleEditTransaction ?u ?ts ! 1 = ?ts ! 1"
    using handleEditTransaction_frame [of ?u ?ts, THEN conjunct2, rule_format, of 1] by simp
  have "handleEditTransaction ?u ?ts = [?u, ?ts ! 1]"
  proof (rule nth_equalityI)
    show "length (handleEditTransaction ?u ?ts) = length [?u, ?ts ! 1]"
      using len by simp
  next
    fix i assume "i < length (handleEditTransaction ?u ?ts)"
    then have "i = 0 \<or> i = 1" using len by auto
    then show "handleEditTransaction ?u ?ts ! i = [?u, ?ts ! 1] ! i"
      using at0 at1 by auto
  qed
  then show ?thesis by simp
qed

subsection \<open>Period comparison\<close>

text \<open>
  C3. For every pair of non-negative sums, \<open>createCompData\<close> computes
  percentChange = (current - previous) / previous * 100 when previous > 0,
  percentChange = 100 when previous = 0 and current > 0, and percentChange = 0 when both
  are zero.
\<close>

theorem createCompData_percentChange:
  assumes "0 \<le> cur" and "0 \<le> prv"
  shows "(prv > 0 \<longrightarrow> percentChange (createCompData ttl cur prv lp lc) = (cur - prv) / prv * 100)
       \<and> (prv = 0 \<and> cur > 0 \<longrightarrow> percentChange (createCompData ttl cur prv lp lc) = 100)
       \<and> (prv = 0 \<and> cur = 0 \<longrightarrow> percentChange (createCompData ttl cur prv lp lc) = 0)"
  using assms by (simp add: createCompData_def)

theorem createCompData_percentChange_witness:
  "percentChange (createCompData ''week'' 100 200 ''before'' ''now'') = - 50
   \<and> percentChange (createCompData ''week'' 100 0 ''before'' ''now'') = 100
   \<and> percentChange (createCompData ''week'' 0 0 ''before'' ''now'') = 0"
proof -
  have a: "percentChange (createCompData ''week'' 100 200 ''before'' ''now'') = - 50"
    using createCompData_percentChange [of 100 200 "''week''" "''before''" "''now''"] by simp
  have b: "percentChange (createCompData ''week'' 100 0 ''before'' ''now'') = 100"
    using createCompData_percentChange [of 100 0 "''week''" "''before''" "''now''"] by simp
  have c: "percentChange (createCompData ''week'' 0 0 ''before'' ''now'') = 0"
    using createCompData_percentChange [of 0 0 "''week''" "''before''" "''now''"] by simp
  show ?thesis using a b c by simp
qed

subsection \<open>Category totals\<close>






subsection \<open>Period filters and grouping\<close>

lemma parseDate_multiple:
  assumes "parseDate s = Some t"
  shows "t = (t div msPerDay) * msPerDay"
proof -
  from assms have "\<exists>k. t = k * msPerDay"
    by (auto simp: parseDate_def Let_def split: if_splits)
  then show ?thesis by (auto simp: msPerDay_def)
qed

lemma parseDate_nonempty: "parseDate s = Some t \<Longrightarrow> s \<noteq> []"
  by (auto simp: parseDate_def)

lemma week_cmp:
  assumes "now mod msPerDay \<noteq> 0"
  shows "(d * msPerDay \<ge> now - 7 * msPerDay) = (now div msPerDay - 6 \<le> d)"
proof -
  define q where "q = now div msPerDay"
  define r where "r = now mod msPerDay"
  have now: "now = q * 86400000 + r"
    unfolding q_def r_def msPerDay_def by simp
  have "0 \<le> r" "r < 86400000" "r \<noteq> 0"
    using assms unfolding r_def msPerDay_def by simp_all
  then have r: "0 < r" "r < 86400000" by simp_all
  show ?thesis
    unfolding q_def [symmetric] unfolding msPerDay_def now using r by auto
qed

lemma shiftDate_same_offset:
  assumes "offsetAtLocal (zone clk) (localTime clk t - 7 * msPerDay) = offsetAtUtc (zone clk) t"
  shows "shiftDate clk t (- 7) = t - 7 * msPerDay"
  using assms by (simp add: shiftDate_def utcTime_def localTime_def)

lemma week_keep:
  assumes "nowMs clk mod msPerDay \<noteq> 0"
    and "offsetAtLocal (zone clk) (localTime clk (nowMs clk) - 7 * msPerDay)
           = offsetAtUtc (zone clk) (nowMs clk)"
  shows "(case parseDate s of None \<Rightarrow> False | Some d \<Rightarrow> d \<ge> shiftDate clk (nowMs clk) (- 7))
         = dayNotBefore (today clk - 6) s"
proof (cases "parseDate s")
  case None
  then show ?thesis by (simp add: dayNotBefore_def)
next
  case (Some t)
  then have "t = (t div msPerDay) * msPerDay" by (rule parseDate_multiple)
  then have "(t \<ge> nowMs clk - 7 * msPerDay) = (nowMs clk div msPerDay - 6 \<le> t div msPerDay)"
    using week_cmp [OF assms(1), of "t div msPerDay"] by simp
  with Some show ?thesis
    by (simp add: dayNotBefore_def today_def shiftDate_same_offset [OF assms(2)])
qed

lemma week_filter_lower_bound:
  assumes "nowMs clk mod msPerDay \<noteq> 0"
    and "offsetAtLocal (zone clk) (localTime clk (nowMs clk) - 7 * msPerDay)
           = offsetAtUtc (zone clk) (nowMs clk)"
  shows "filteredTransactions clk ts cats Week sd ed
         = filter (\<lambda>t. type_t t = Expense \<and> category t \<in> set cats
                        \<and> dayNotBefore (today clk - 6) (date t)) ts"
  by (simp add: filteredTransactions_def Let_def week_keep [OF assms] conj_commute conj_left_commute)

text \<open>
  C1 (as amended). Let today be the UTC calendar day of the clock. If the clock is not
  exactly at midnight UTC, and the offset of local time from UTC at the local time seven
  days ago is the offset in effect now (no change of daylight saving time in between),
  then of the transactions dated today or earlier the week filter returns exactly the
  expense transactions of the selected categories dated today - 6 or later.
  (Nothing is said here about transactions dated after today.)
\<close>

theorem week_filter_window:
  assumes "nowMs clk mod msPerDay \<noteq> 0"
    and "offsetAtLocal (zone clk) (localTime clk (nowMs clk) - 7 * msPerDay)
           = offsetAtUtc (zone clk) (nowMs clk)"
  shows "filter (\<lambda>t. dayNotAfter (today clk) (date t))
           (filteredTransactions clk ts cats Week sd ed)
         = filter (\<lambda>t. type_t t = Expense \<and> category t \<in> set cats
                        \<and> dayNotBefore (today clk - 6) (date t)
                        \<and> dayNotAfter (today clk) (date t)) ts"
  by (simp add: week_filter_lower_bound [OF assms] conj_commute conj_left_commute)

text \<open>
  C2 (as amended). With period custom and the start date or the end date empty, no date
  filter is applied: the result is the list of all expense transactions of the selected
  categories, in their order, and the grouping stays daily. The computation has no error
  path.
\<close>

theorem custom_missing_dates:
  assumes "sd = [] \<or> ed = []"
  shows "filteredTransactions clk ts cats Custom sd ed
           = filter (\<lambda>t. type_t t = Expense \<and> category t \<in> set cats) ts
         \<and> filteredTransactions clk ts cats Custom sd ed
           = filteredTransactions clk ts cats All sd ed
         \<and> isMonthlyGrouping Custom sd ed = False"
  using assms by (auto simp: filteredTransactions_def isMonthlyGrouping_def)

text \<open>
  C5. For every custom range whose start and end are both present (valid dates), monthly
  grouping is selected exactly when the end date is more than 60 days after the start
  date; a range of 60 days or fewer, 60 included, is grouped daily.
\<close>

theorem custom_monthly_grouping:
  assumes "parseDate sd = Some a" and "parseDate ed = Some b"
  shows "isMonthlyGrouping Custom sd ed = (60 < b div msPerDay - a div msPerDay)"
proof -
  have ne: "sd \<noteq> []" "ed \<noteq> []"
    using assms parseDate_nonempty by blast+
  obtain x y where a: "a = x * msPerDay" and b: "b = y * msPerDay"
    using assms parseDate_multiple by blast
  have xy: "a div msPerDay = x" "b div msPerDay = y"
    by (simp_all add: a b msPerDay_def)
  have eq: "b - a = (y - x) * 86400000"
    by (simp add: a b msPerDay_def algebra_simps)
  have "real_of_int (b - a) / (1000 * 3600 * 24) = real_of_int (y - x)"
    unfolding eq by simp
  moreover have "(60 < real_of_int (y - x)) = (60 < y - x)"
    by linarith
  ultimately have dd: "(60 < real_of_int (b - a) / (1000 * 3600 * 24)) = (60 < y - x)"
    by (simp only:)
  show ?thesis
    using dd assms ne by (simp add: isMonthlyGrouping_def xy)
qed



text \<open>
  The witness is in New York on 2024-01-10 at 17:00 UTC (noon local time); daylight saving
  time starts there on 2024-03-10 at 07:00 UTC, outside the week.
\<close>

theorem week_filter_window_witness:
  "nowMs \<lparr>nowMs = 1704906000000,
           zone = changingZone 1710054000000 (- 18000000) (- 14400000)\<rparr> mod msPerDay \<noteq> 0
   \<and> filter (\<lambda>t. dayNotAfter
                   (today \<lparr>nowMs = 1704906000000,
                      zone = changingZone 1710054000000 (- 18000000) (- 14400000)\<rparr>) (date t))
       (filteredTransactions
          \<lparr>nowMs = 1704906000000,
             zone = changingZone 1710054000000 (- 18000000) (- 14400000)\<rparr>
         [\<lparr>id_t = ''a'', amount = 100, type_t = Expense, category = Food,
            date = ''2024-01-04'', note_t = []\<rparr>,
          \<lparr>id_t = ''b'', amount = 200, type_t = Expense, category = Food,
            date = ''2024-01-03'', note_t = []\<rparr>,
          \<lparr>id_t = ''c'', amount = 300, type_t = Income, category = IncomeCat,
            date = ''2024-01-10'', note_t = []\<rparr>,
          \<lparr>id_t = ''d'', amount = 400, type_t = Expense, category = Transport,
            date = ''2024-01-08'', note_t = []\<rparr>,
          \<lparr>id_t = ''e'', amount = 500, type_t = Expense, category = Food,
            date = ''2024-01-10'', note_t = []\<rparr>]
         [Food] Week [] [])
     = [\<lparr>id_t = ''a'', amount = 100, type_t = Expense, category = Food,
            date = ''2024-01-04'', note_t = []\<rparr>,
        \<lparr>id_t = ''e'', amount = 500, type_t = Expense, category = Food,
            date = ''2024-01-10'', note_t = []\<rparr>]"
proof -
  let ?clk = "\<lparr>nowMs = 1704906000000,
                zone = changingZone 1710054000000 (- 18000000) (- 14400000)\<rparr>"
  let ?ts = "[\<lparr>id_t = ''a'', amount = 100, type_t = Expense, category = Food,
            date = ''2024-01-04'', note_t = []\<rparr>,
          \<lparr>id_t = ''b'', amount = 200, type_t = Expense, category = Food,
            date = ''2024-01-03'', note_t = []\<rparr>,
          \<lparr>id_t = ''c'', amount = 300, type_t = Income, category = IncomeCat,
            date = ''2024-01-10'', note_t = []\<rparr>,
          \<lparr>id_t = ''d'', amount = 400, type_t = Expense, category = Transport,
            date = ''2024-01-08'', note_t = []\<rparr>,
          \<lparr>id_t = ''e'', amount = 500, type_t = Expense, category = Food,
            date = ''2024-01-10'', note_t = []\<rparr>]"
  have h: "nowMs ?clk mod msPerDay \<noteq> 0"
    by code_simp
  have same: "offsetAtLocal (zone ?clk) (localTime ?clk (nowMs ?clk) - 7 * msPerDay)
                = offsetAtUtc (zone ?clk) (nowMs ?clk)"
    by code_simp
  have window: "filter (\<lambda>t. type_t t = Expense \<and> category t \<in> set [Food]
                        \<and> dayNotBefore (today ?clk - 6) (date t)
                        \<and> dayNotAfter (today ?clk) (date t)) ?ts
      = [\<lparr>id_t = ''a'', amount = 100, type_t = Expense, category = Food,
            date = ''2024-01-04'', note_t = []\<rparr>,
        \<lparr>id_t = ''e'', amount = 500, type_t = Expense, category = Food,
            date = ''2024-01-10'', note_t = []\<rparr>]"
    by code_simp
  show ?thesis
    using h trans [OF week_filter_window [OF h same, of ?ts "[Food]" "[]" "[]"] window]
    by (rule conjI)
qed

text \<open>
  The claim C1 as stated fails, in four ways.

  \<^item> At noon UTC of 2024-01-01 (fixed offset 0) the week filter returns an expense dated
    2024-03-01, which is after today, and does not return an income dated today, which
    is inside the window.
  \<^item> At midnight UTC of 2024-01-01 exactly it returns an expense dated 2023-12-25, which
    is today - 7.
  \<^item> In New York on 2024-03-12 at 23:30 UTC, two days after the start of daylight saving
    time, the local time seven days ago is 2024-03-06 at 00:30 UTC, and the expense dated
    2024-03-06, which is today - 6, is not returned.
  \<^item> With today read as the local calendar day: at 20:00 UTC of 2024-01-01 in a zone
    seven hours ahead of UTC the local day is 2024-01-02, and the expense dated
    2023-12-26, seven days before it, is returned.
\<close>

theorem week_filter_counterexample:
  "filteredTransactions \<lparr>nowMs = 1704110400000, zone = fixedZone 0\<rparr>
     [\<lparr>id_t = ''c'', amount = 300, type_t = Income, category = IncomeCat,
        date = ''2024-01-01'', note_t = []\<rparr>,
      \<lparr>id_t = ''f'', amount = 600, type_t = Expense, category = Food,
        date = ''2024-03-01'', note_t = []\<rparr>]
     [Food] Week [] []
   = [\<lparr>id_t = ''f'', amount = 600, type_t = Expense, category = Food,
        date = ''2024-03-01'', note_t = []\<rparr>]
   \<and> \<not> dayNotAfter (today \<lparr>nowMs = 1704110400000, zone = fixedZone 0\<rparr>) ''2024-03-01''
   \<and> dayNotBefore (today \<lparr>nowMs = 1704110400000, zone = fixedZone 0\<rparr> - 6) ''2024-01-01''
   \<and> dayNotAfter (today \<lparr>nowMs = 1704110400000, zone = fixedZone 0\<rparr>) ''2024-01-01''
   \<and> filteredTransactions \<lparr>nowMs = 1704067200000, zone = fixedZone 0\<rparr>
       [\<lparr>id_t = ''g'', amount = 700, type_t = Expense, category = Food,
          date = ''2023-12-25'', note_t = []\<rparr>]
       [Food] Week [] []
     = [\<lparr>id_t = ''g'', amount = 700, type_t = Expense, category = Food,
          date = ''2023-12-25'', note_t = []\<rparr>]
   \<and> \<not> dayNotBefore (today \<lparr>nowMs = 1704067200000, zone = fixedZone 0\<rparr> - 6) ''2023-12-25''
   \<and> filteredTransactions
       \<lparr>nowMs = 1710286200000,
          zone = changingZone 1710054000000 (- 18000000) (- 14400000)\<rparr>
       [\<lparr>id_t = ''q'', amount = 800, type_t = Expense, category = Food,
          date = ''2024-03-06'', note_t = []\<rparr>,
        \<lparr>id_t = ''r'', amount = 900, type_t = Expense, category = Food,
          date = ''2024-03-07'', note_t = []\<rparr>]
       [Food] Week [] []
     = [\<lparr>id_t = ''r'', amount = 900, type_t = Expense, category = Food,
          date = ''2024-03-07'', note_t = []\<rparr>]
   \<and> dayNotBefore
       (today \<lparr>nowMs = 1710286200000,
                zone = changingZone 1710054000000 (- 18000000) (- 14400000)\<rparr> - 6)
       ''2024-03-06''
   \<and> dayNotAfter
       (today \<lparr>nowMs = 1710286200000,
                zone = changingZone 1710054000000 (- 18000000) (- 14400000)\<rparr>)
       ''2024-03-06''
   \<and> filteredTransactions \<lparr>nowMs = 1704139200000, zone = fixedZone 25200000\<rparr>
       [\<lparr>id_t = ''h'', amount = 150, type_t = Expense, category = Food,
          date = ''2023-12-26'', note_t = []\<rparr>]
       [Food] Week [] []
     = [\<lparr>id_t = ''h'', amount = 150, type_t = Expense, category = Food,
          date = ''2023-12-26'', note_t = []\<rparr>]
   \<and> \<not> dayNotBefore (localToday \<lparr>nowMs = 1704139200000, zone = fixedZone 25200000\<rparr> - 6)
         ''2023-12-26''"
  by code_simp

text \<open>
  The claim C2 as stated fails: with an empty start date the custom filter returns a
  non-empty list.
\<close>

theorem custom_missing_dates_counterexample:
  "filteredTransactions \<lparr>nowMs = 1704110400000, zone = fixedZone 0\<rparr>
     [\<lparr>id_t = ''a'', amount = 100, type_t = Expense, category = Food,
        date = ''2023-12-26'', note_t = []\<rparr>]
     [Food] Custom [] ''2024-01-31'' \<noteq> []"
  by code_simp

theorem custom_missing_dates_witness:
  "filteredTransactions \<lparr>nowMs = 1704110400000, zone = fixedZone 0\<rparr>
     [\<lparr>id_t = ''a'', amount = 100, type_t = Expense, category = Food,
        date = ''2023-12-26'', note_t = []\<rparr>,
      \<lparr>id_t = ''c'', amount = 300, type_t = Income, category = IncomeCat,
        date = ''2024-01-01'', note_t = []\<rparr>]
     [Food] Custom [] ''2024-01-31''
   = [\<lparr>id_t = ''a'', amount = 100, type_t = Expense, category = Food,
        date = ''2023-12-26'', note_t = []\<rparr>]
   \<and> isMonthlyGrouping Custom [] ''2024-01-31'' = False"
  using custom_missing_dates [of "[]" "''2024-01-31''" "\<lparr>nowMs = 1704110400000, zone = fixedZone 0\<rparr>" _ "[Food]"]
  by simp

theorem custom_monthly_grouping_witness:
  "parseDate ''2024-01-01'' = Some 1704067200000
   \<and> parseDate ''2024-03-01'' = Some 1709251200000
   \<and> parseDate ''2024-03-02'' = Some 1709337600000
   \<and> isMonthlyGrouping Custom ''2024-01-01'' ''2024-03-01'' = False
   \<and> isMonthlyGrouping Custom ''2024-01-01'' ''2024-03-02'' = True"
proof -
  have a: "parseDate ''2024-01-01'' = Some 1704067200000"
    by code_simp
  have b: "parseDate ''2024-03-01'' = Some 1709251200000"
    by code_simp
  have c: "parseDate ''2024-03-02'' = Some 1709337600000"
    by code_simp
  have "isMonthlyGrouping Custom ''2024-01-01'' ''2024-03-01'' = False"
    using custom_monthly_grouping [OF a b] by (simp add: msPerDay_def)
  moreover have "isMonthlyGrouping Custom ''2024-01-01'' ''2024-03-02'' = True"
    using custom_monthly_grouping [OF a c] by (simp add: msPerDay_def)
  ultimately show ?thesis using a b c by simp
qed

subsection \<open>The JSON codec: parsing a printed value gives the value back\<close>

subsubsection \<open>Numbers\<close>

lemma digitChar_code:
  assumes "0 \<le> d" and "d < 10"
  shows "int (of_char (digitChar d) :: nat) = 48 + d"
proof -
  from assms have "(of_char (digitChar d) :: int) = 48 + d"
    by (simp add: digitChar_def)
  then show ?thesis
    by (simp add: of_nat_of_char)
qed

lemma digitChar_isDigit: "0 \<le> d \<Longrightarrow> d < 10 \<Longrightarrow> isDigit (digitChar d)"
  using digitChar_code [of d] unfolding isDigit_def by linarith

lemma digitVal_digitChar: "0 \<le> d \<Longrightarrow> d < 10 \<Longrightarrow> digitVal (digitChar d) = d"
  using digitChar_code [of d] unfolding digitVal_def by linarith

lemma digitVal_zero: "digitVal (CHR ''0'') = 0"
  by (simp add: digitVal_def)

lemma digitChar_zero:
  assumes "0 < d" and "d < 10"
  shows "digitChar d \<noteq> CHR ''0''"
proof
  assume "digitChar d = CHR ''0''"
  then have "digitVal (digitChar d) = digitVal (CHR ''0'')"
    by (rule arg_cong)
  with assms show False
    by (simp add: digitVal_zero digitVal_digitChar [of d])
qed

lemma showDigits_digits: "0 \<le> n \<Longrightarrow> showDigits n \<noteq> [] \<and> list_all isDigit (showDigits n)"
proof (induction n rule: showDigits.induct)
  case (1 n)
  show ?case
  proof (cases "n < 10")
    case True
    with "1.prems" show ?thesis
      by (simp add: showDigits.simps [of n] digitChar_isDigit)
  next
    case False
    with "1.prems" have "0 \<le> n div 10" "0 \<le> n mod 10" "n mod 10 < 10" by simp_all
    with False "1.IH" show ?thesis
      by (simp add: showDigits.simps [of n] digitChar_isDigit)
  qed
qed

lemma digitsValue_snoc: "digitsValue (ds @ [c]) = 10 * digitsValue ds + digitVal c"
  by (simp add: digitsValue_def)

lemma digitsValue_showDigits: "0 \<le> n \<Longrightarrow> digitsValue (showDigits n) = n"
proof (induction n rule: showDigits.induct)
  case (1 n)
  show ?case
  proof (cases "n < 10")
    case True
    with "1.prems" show ?thesis
      by (simp add: showDigits.simps [of n] digitsValue_def digitVal_digitChar)
  next
    case False
    with "1.prems" have "0 \<le> n div 10" "0 \<le> n mod 10" "n mod 10 < 10" by simp_all
    with False "1.IH" show ?thesis
      by (simp add: showDigits.simps [of n] digitsValue_snoc digitVal_digitChar)
  qed
qed

lemma showDigits_no_leading_zero: "0 < n \<Longrightarrow> hd (showDigits n) \<noteq> CHR ''0''"
proof (induction n rule: showDigits.induct)
  case (1 n)
  show ?case
  proof (cases "n < 10")
    case True
    with "1.prems" show ?thesis
      by (simp add: showDigits.simps [of n] digitChar_zero)
  next
    case False
    then have pos: "0 < n div 10" by simp
    then have "showDigits (n div 10) \<noteq> []" using showDigits_digits [of "n div 10"] by simp
    with False "1.IH" pos show ?thesis
      by (simp add: showDigits.simps [of n])
  qed
qed

lemma digitChar_0: "digitChar 0 = CHR ''0''"
  by code_simp

lemma showDigits_zero: "showDigits 0 = ''0''"
  by (simp add: showDigits.simps [of 0] digitChar_0)

lemma takeWhile_digits:
  "list_all isDigit ds \<Longrightarrow> numEnd rest \<Longrightarrow> takeWhile isDigit (ds @ rest) = ds"
  by (cases rest) (auto simp: numEnd_def list_all_iff takeWhile_append2)

lemma dropWhile_digits:
  "list_all isDigit ds \<Longrightarrow> numEnd rest \<Longrightarrow> dropWhile isDigit (ds @ rest) = rest"
  by (cases rest) (auto simp: numEnd_def list_all_iff dropWhile_append2)

lemma takeWhile_all_digits:
  "list_all isDigit ds \<Longrightarrow> takeWhile isDigit ds = ds \<and> dropWhile isDigit ds = []"
  by (simp add: list_all_iff)

lemma parseFraction_numEnd: "numEnd rest \<Longrightarrow> parseFraction rest = Some ([], rest)"
  by (cases rest) (simp_all add: parseFraction_def numEnd_def)

lemma parseExponent_numEnd: "numEnd rest \<Longrightarrow> parseExponent rest = Some (0, rest)"
  by (cases rest) (simp_all add: parseExponent_def numEnd_def)

lemma parseUnsigned_showDigits:
  assumes "0 \<le> n" and "numEnd rest"
  shows "parseUnsigned (showDigits n @ rest) = Some (of_int n, rest)"
proof -
  have ds: "showDigits n \<noteq> []" "list_all isDigit (showDigits n)"
    using showDigits_digits [OF assms(1)] by simp_all
  have lead: "\<not> (hd (showDigits n) = CHR ''0'' \<and> length (showDigits n) > 1)"
  proof (cases "n = 0")
    case True
    then show ?thesis by (simp add: showDigits_zero)
  next
    case False
    with assms(1) have "0 < n" by simp
    then show ?thesis using showDigits_no_leading_zero by simp
  qed
  have tw: "takeWhile isDigit (showDigits n @ rest) = showDigits n"
    and dw: "dropWhile isDigit (showDigits n @ rest) = rest"
    using ds(2) assms(2) by (simp_all add: takeWhile_digits dropWhile_digits)
  show ?thesis
    unfolding parseUnsigned_def tw dw Let_def
    using ds(1) lead
    by (simp add: parseFraction_numEnd [OF assms(2)] parseExponent_numEnd [OF assms(2)]
        digitsValue_showDigits [OF assms(1)] power10_def)
qed

lemma showInt_start:
  "\<exists>c t. showInt i = c # t \<and> (c = CHR ''-'' \<or> isDigit c)"
proof (cases "i < 0")
  case True
  then show ?thesis by (simp add: showInt_def)
next
  case False
  then have "showDigits i \<noteq> []" "list_all isDigit (showDigits i)"
    using showDigits_digits [of i] by simp_all
  then show ?thesis using False
    by (cases "showDigits i") (simp_all add: showInt_def)
qed

lemma isDigit_not_minus: "isDigit c \<Longrightarrow> c \<noteq> CHR ''-''"
  by (auto simp: isDigit_def)

lemma parseNumber_showInt:
  assumes "numEnd rest"
  shows "parseNumber (showInt i @ rest) = Some (JNum (Finite (of_int i)), rest)"
proof (cases "i < 0")
  case True
  then show ?thesis
    using parseUnsigned_showDigits [of "- i" rest] assms
    by (simp add: showInt_def parseNumber_def)
next
  case False
  then have nn: "0 \<le> i" by simp
  have "showDigits i \<noteq> []" "list_all isDigit (showDigits i)"
    using showDigits_digits [OF nn] by simp_all
  then obtain c t where ct: "showDigits i = c # t" "isDigit c"
    by (cases "showDigits i") simp_all
  then have "c \<noteq> CHR ''-''" using isDigit_not_minus by blast
  then show ?thesis
    using parseUnsigned_showDigits [OF nn assms] ct False
    by (simp add: showInt_def parseNumber_def)
qed

lemma safeInteger_Finite:
  assumes "safeInteger n"
  shows "n = Finite (of_int \<lfloor>case n of Finite x \<Rightarrow> x | _ \<Rightarrow> 0\<rfloor>)
         \<and> showNumber n = showInt \<lfloor>case n of Finite x \<Rightarrow> x | _ \<Rightarrow> 0\<rfloor>"
  using assms by (cases n) (simp_all add: safeInteger_def isSafeInteger_def showNumber_def)

lemma parseNumber_showNumber:
  assumes "numEnd rest" and "safeInteger n"
  shows "parseNumber (showNumber n @ rest) = Some (JNum n, rest)"
proof -
  obtain i where n: "n = Finite (of_int i)" and s: "showNumber n = showInt i"
    using safeInteger_Finite [OF assms(2)] by blast
  show ?thesis
    unfolding s using parseNumber_showInt [OF assms(1), of i] n by simp
qed

lemma showNumber_start:
  "\<exists>c t. showNumber n = c # t \<and> (c = CHR ''-'' \<or> isDigit c \<or> c = CHR ''n'')"
proof (cases n)
  case (Finite x)
  then show ?thesis
    using showInt_start [of "\<lfloor>x\<rfloor>"] by (auto simp: showNumber_def)
qed (simp_all add: showNumber_def)

subsubsection \<open>Strings\<close>

lemma hexVal_hexChar: "d < 16 \<Longrightarrow> hexVal (hexChar d) = Some (int d)"
  by (simp add: hexVal_def hexChar_def Let_def)

lemma hexVal_0: "hexVal (CHR ''0'') = Some 0"
  by (simp add: hexVal_def)

lemma consResult_Some: "consResult x (Some (xs, r)) = Some (x # xs, r)"
  by (simp add: consResult_def)

lemma hexCode_control:
  assumes "(of_char c :: nat) < 32"
  shows "hexCode (CHR ''0'') (CHR ''0'') (hexChar (of_char c div 16)) (hexChar (of_char c mod 16))
         = Some (int (of_char c))"
proof -
  have "(of_char c :: nat) div 16 < 16" "(of_char c :: nat) mod 16 < 16"
    using assms by simp_all
  then have h: "hexVal (hexChar (of_char c div 16)) = Some (int (of_char c div 16))"
    "hexVal (hexChar (of_char c mod 16)) = Some (int (of_char c mod 16))"
    by (simp_all add: hexVal_hexChar)
  have "16 * int ((of_char c :: nat) div 16) + int (of_char c mod 16) = int (of_char c)"
    by (simp add: zdiv_int zmod_int)
  then show ?thesis
    by (simp add: hexCode_def h hexVal_0)
qed

lemma utf8_ascii: "(of_char c :: nat) < 32 \<Longrightarrow> utf8 (int (of_char c)) = [c]"
  by (simp add: utf8_def)

lemma appendResult_single: "appendResult [c] r = consResult c r"
  by (simp add: appendResult_def consResult_def split: option.splits)

lemma parseString_control:
  assumes "(of_char c :: nat) < 32"
  shows "parseString (backslash # CHR ''u'' # CHR ''0'' # CHR ''0''
            # hexChar (of_char c div 16) # hexChar (of_char c mod 16) # t)
         = consResult c (parseString t)"
proof -
  have "\<not> isHighSurrogate (int (of_char c))"
    using assms by (simp add: isHighSurrogate_def)
  then show ?thesis
    by (simp add: hexCode_control [OF assms] utf8_ascii [OF assms] appendResult_single)
qed

lemma parseString_quoteChar: "parseString (quoteChar c @ t) = consResult c (parseString t)"
proof (cases "(of_char c :: nat) < 32")
  case True
  then have ne: "c \<noteq> dquote" "c \<noteq> backslash" by auto
  show ?thesis
    using True ne parseString_control [OF True, of t]
    by (simp add: quoteChar_def unescape_def)
next
  case False
  then have "c \<noteq> CHR 0x08" "c \<noteq> CHR 0x09" "c \<noteq> CHR 0x0A" "c \<noteq> CHR 0x0C" "c \<noteq> CHR 0x0D"
    by auto
  with False show ?thesis
    by (simp add: quoteChar_def unescape_def)
qed

lemma parseString_quoted:
  "parseString (concat (map quoteChar s) @ dquote # rest) = Some (s, rest)"
  by (induction s) (simp_all add: parseString_quoteChar consResult_def del: parseString.simps, simp)

subsection \<open>White space and the first character of a printed value\<close>

lemma skipWs_ws: "list_all isWs w \<Longrightarrow> skipWs (w @ s) = skipWs s"
  by (induction w) simp_all

lemma isWs_newline: "isWs newline"
  by (simp add: isWs_def)

lemma isWs_space: "isWs (CHR '' '')"
  by (simp add: isWs_def)

lemma start_not_ws:
  "c = CHR ''-'' \<or> isDigit c \<Longrightarrow>
     \<not> isWs c \<and> c \<noteq> CHR '']'' \<and> c \<noteq> CHR ''}'' \<and> c \<noteq> CHR ''{'' \<and> c \<noteq> CHR ''[''
     \<and> c \<noteq> dquote"
  by (auto simp: isDigit_def isWs_def)

lemma serialize_start:
  "\<exists>c t. serializeJSON ind v = c # t \<and> \<not> isWs c \<and> c \<noteq> CHR '']'' \<and> c \<noteq> CHR ''}''"
proof (cases v)
  case (JNum n)
  obtain c t where ct: "showNumber n = c # t" "c = CHR ''-'' \<or> isDigit c \<or> c = CHR ''n''"
    using showNumber_start by blast
  have "\<not> isWs c \<and> c \<noteq> CHR '']'' \<and> c \<noteq> CHR ''}''"
  proof (cases "c = CHR ''n''")
    case True
    then show ?thesis by (simp add: isWs_def)
  next
    case False
    with ct(2) show ?thesis using start_not_ws [of c] by simp
  qed
  then show ?thesis using JNum ct(1) by simp
qed (simp_all add: isWs_def quoteJSONString_def)

lemma joinWith_start:
  assumes "xs \<noteq> []"
  shows "\<exists>c t. joinWith sep (map (serializeJSON ind) xs) @ u = c # t
           \<and> \<not> isWs c \<and> c \<noteq> CHR '']'' \<and> c \<noteq> CHR ''}''"
proof -
  from assms obtain x ys where xs: "xs = x # ys" by (cases xs) auto
  obtain c t where ct: "serializeJSON ind x = c # t" "\<not> isWs c" "c \<noteq> CHR '']''" "c \<noteq> CHR ''}''"
    using serialize_start by blast
  show ?thesis
    using xs ct by (cases ys) simp_all
qed

lemma punct_not_ws:
  "\<not> isWs (CHR '']'')" "\<not> isWs (CHR ''}'')" "\<not> isWs (CHR '','')" "\<not> isWs (CHR '':'')"
  "\<not> isWs (CHR ''['')" "\<not> isWs (CHR ''{'')" "\<not> isWs dquote"
  by (simp_all add: isWs_def)

lemma numEnd_comma: "numEnd (CHR '','' # s)"
  by (simp add: numEnd_def isDigit_def)

lemma numEnd_newline: "numEnd (newline # s)"
  by (simp add: numEnd_def isDigit_def)

lemma numEnd_Nil: "numEnd []"
  by (simp add: numEnd_def)

subsection \<open>Arrays\<close>

lemma parseElements_join:
  assumes IH: "\<And>x w rest n. x \<in> set xs \<Longrightarrow> list_all isWs w \<Longrightarrow> numEnd rest \<Longrightarrow> parseCost x \<le> n
                 \<Longrightarrow> parseValue (Suc n) (w @ serializeJSON ind' x @ rest) = Some (x, rest)"
    and "xs \<noteq> []" and "list_all isWs w" and "list_all isWs ind'" and "list_all isWs ind"
    and "sum_list (map (\<lambda>x. 2 + parseCost x) xs) \<le> n"
  shows "parseElements n
           (w @ joinWith (CHR '','' # newline # ind') (map (serializeJSON ind') xs)
              @ newline # ind @ CHR '']'' # rest)
         = Some (xs, rest)"
  using assms
proof (induction xs arbitrary: w n)
  case Nil
  then show ?case by simp
next
  case (Cons x xs)
  let ?sep = "CHR '','' # newline # ind'"
  let ?tail = "newline # ind @ CHR '']'' # rest"
  from Cons.prems(6) obtain k where n: "n = Suc (Suc k)" and k: "parseCost x \<le> k"
    and k': "sum_list (map (\<lambda>x. 2 + parseCost x) xs) \<le> Suc k"
    by (cases n; cases "n - 1") auto
  show ?case
  proof (cases xs)
    case Nil
    have pv: "parseValue (Suc k) (w @ serializeJSON ind' x @ ?tail) = Some (x, ?tail)"
      using Cons.prems(3) k by (intro Cons.prems(1)) (simp_all add: numEnd_newline)
    have sk: "skipWs ?tail = CHR '']'' # rest"
      using Cons.prems(5) by (simp add: skipWs_ws isWs_newline punct_not_ws)
    show ?thesis
      using Nil pv sk by (simp add: n)
  next
    case (Cons y ys)
    let ?more = "joinWith ?sep (map (serializeJSON ind') xs) @ ?tail"
    have pv: "parseValue (Suc k) (w @ serializeJSON ind' x @ CHR '','' # newline # ind' @ ?more)
                = Some (x, CHR '','' # newline # ind' @ ?more)"
      using Cons.prems(3) k by (intro Cons.prems(1)) (simp_all add: numEnd_comma)
    have ws: "list_all isWs (newline # ind')"
      using Cons.prems(4) by (simp add: isWs_newline)
    have "parseElements (Suc k) ((newline # ind') @ ?more) = Some (xs, rest)"
    proof (rule Cons.IH)
      fix x' w' rest' n'
      assume "x' \<in> set xs" "list_all isWs w'" "numEnd rest'" "parseCost x' \<le> n'"
      then show "parseValue (Suc n') (w' @ serializeJSON ind' x' @ rest') = Some (x', rest')"
        by (intro Cons.prems(1)) simp_all
    qed (use Cons.prems(4,5) k' ws Cons in simp_all)
    then have rec: "parseElements (Suc k) (newline # ind' @ ?more) = Some (xs, rest)"
      by simp
    note sk = punct_not_ws
    show ?thesis
      using Cons pv rec sk unfolding n
      by (simp add: consResult_def)
  qed
qed

subsection \<open>Objects\<close>

lemma setProp_fresh: "k \<notin> fst ` set acc \<Longrightarrow> setProp acc k v = acc @ [(k, v)]"
  by (induction acc) auto

lemma foldl_setProp_distinct:
  "distinct (map fst (acc @ kvs)) \<Longrightarrow>
     foldl (\<lambda>acc (k, v). setProp acc k v) acc kvs = acc @ kvs"
proof (induction kvs arbitrary: acc)
  case Nil
  then show ?case by simp
next
  case (Cons kv kvs)
  obtain k v where kv: "kv = (k, v)" by (cases kv)
  from Cons.prems have fresh: "k \<notin> fst ` set acc" by (auto simp: kv)
  from Cons.prems have "distinct (map fst ((acc @ [(k, v)]) @ kvs))" by (simp add: kv)
  then have "foldl (\<lambda>acc (k, v). setProp acc k v) (acc @ [(k, v)]) kvs = (acc @ [(k, v)]) @ kvs"
    by (rule Cons.IH)
  then show ?case by (simp add: kv setProp_fresh [OF fresh])
qed

lemma makeObject_distinct: "distinct (map fst kvs) \<Longrightarrow> makeObject kvs = JObj kvs"
  using foldl_setProp_distinct [of "[]" kvs] by (simp add: makeObject_def)

lemma joinWith_members_start:
  assumes "kvs \<noteq> []"
  shows "\<exists>t. joinWith sep (map (\<lambda>(k, v). quoteJSONString k @ '': '' @ serializeJSON ind v) kvs) @ u
           = dquote # t"
proof -
  from assms obtain k v ys where "kvs = (k, v) # ys" by (cases kvs) auto
  then show ?thesis by (cases ys) (simp_all add: quoteJSONString_def)
qed

lemma parseMembers_join:
  assumes IH: "\<And>k v w rest n. (k, v) \<in> set kvs \<Longrightarrow> list_all isWs w \<Longrightarrow> numEnd rest
                 \<Longrightarrow> parseCost v \<le> n
                 \<Longrightarrow> parseValue (Suc n) (w @ serializeJSON ind' v @ rest) = Some (v, rest)"
    and "kvs \<noteq> []" and "list_all isWs w" and "list_all isWs ind'" and "list_all isWs ind"
    and "sum_list (map (\<lambda>kv. 2 + parseCost (snd kv)) kvs) \<le> n"
  shows "parseMembers n
           (w @ joinWith (CHR '','' # newline # ind')
                  (map (\<lambda>(k, v). quoteJSONString k @ '': '' @ serializeJSON ind' v) kvs)
              @ newline # ind @ CHR ''}'' # rest)
         = Some (kvs, rest)"
  using assms
proof (induction kvs arbitrary: w n)
  case Nil
  then show ?case by simp
next
  case (Cons kv kvs)
  obtain key v where kv: "kv = (key, v)" by (cases kv)
  let ?sep = "CHR '','' # newline # ind'"
  let ?tail = "newline # ind @ CHR ''}'' # rest"
  let ?member = "\<lambda>(k, v). quoteJSONString k @ '': '' @ serializeJSON ind' v"
  from Cons.prems(6) obtain m where n: "n = Suc (Suc m)" and m: "parseCost v \<le> m"
    and m': "sum_list (map (\<lambda>kv. 2 + parseCost (snd kv)) kvs) \<le> Suc m"
    by (cases n; cases "n - 1") (auto simp: kv)
  have head: "\<And>u. skipWs (w @ quoteJSONString key @ u)
                 = dquote # concat (map quoteChar key) @ dquote # u"
    using Cons.prems(3) by (simp add: skipWs_ws quoteJSONString_def punct_not_ws)
  have sp: "list_all isWs [CHR '' '']" by (simp add: isWs_space)
  show ?case
  proof (cases kvs)
    case Nil
    have pv: "parseValue (Suc m) ([CHR '' ''] @ serializeJSON ind' v @ ?tail) = Some (v, ?tail)"
      using sp m by (intro Cons.prems(1) [of key]) (simp_all add: numEnd_newline kv)
    have sk: "skipWs ?tail = CHR ''}'' # rest"
      using Cons.prems(5) by (simp add: skipWs_ws isWs_newline punct_not_ws)
    have "parseMembers (Suc (Suc m))
            (w @ quoteJSONString key @ CHR '':'' # CHR '' '' # serializeJSON ind' v @ ?tail)
          = Some ([(key, v)], rest)"
      using pv sk by (simp add: head parseString_quoted punct_not_ws del: parseString.simps)
    then show ?thesis
      using Nil by (simp add: n kv)
  next
    case (Cons y ys)
    let ?more = "joinWith ?sep (map ?member kvs) @ ?tail"
    have pv: "parseValue (Suc m)
                ([CHR '' ''] @ serializeJSON ind' v @ CHR '','' # newline # ind' @ ?more)
              = Some (v, CHR '','' # newline # ind' @ ?more)"
      using sp m by (intro Cons.prems(1) [of key]) (simp_all add: numEnd_comma kv)
    have ws: "list_all isWs (newline # ind')"
      using Cons.prems(4) by (simp add: isWs_newline)
    have "parseMembers (Suc m) ((newline # ind') @ ?more) = Some (kvs, rest)"
    proof (rule Cons.IH)
      fix k' v' w' rest' n'
      assume "(k', v') \<in> set kvs" "list_all isWs w'" "numEnd rest'" "parseCost v' \<le> n'"
      then show "parseValue (Suc n') (w' @ serializeJSON ind' v' @ rest') = Some (v', rest')"
        by (intro Cons.prems(1) [of k']) simp_all
    qed (use Cons.prems(4,5) m' ws Cons in simp_all)
    then have rec: "parseMembers (Suc m) (newline # ind' @ ?more) = Some (kvs, rest)"
      by simp
    have "parseMembers (Suc (Suc m))
            (w @ quoteJSONString key @ CHR '':'' # CHR '' '' # serializeJSON ind' v
               @ CHR '','' # newline # ind' @ ?more)
          = Some ((key, v) # kvs, rest)"
      using pv rec
      by (simp add: head parseString_quoted punct_not_ws consResult_def del: parseString.simps)
    then show ?thesis
      using Cons by (simp add: n kv)
  qed
qed

subsection \<open>Values\<close>

lemma literal_not_ws: "\<not> isWs (CHR ''n'')" "\<not> isWs (CHR ''t'')" "\<not> isWs (CHR ''f'')"
  by (simp_all add: isWs_def)

lemma parseValue_serialize:
  assumes "wfJson v \<and> allNumbers safeInteger v" and "list_all isWs w" and "list_all isWs ind"
    and "numEnd rest" and "parseCost v \<le> n"
  shows "parseValue (Suc n) (w @ serializeJSON ind v @ rest) = Some (v, rest)"
  using assms
proof (induction v arbitrary: w ind rest n)
  case JNull
  then show ?case
    by (simp add: skipWs_ws literal_not_ws isDigit_def parseLiteral_def)
next
  case (JBool b)
  then show ?case
    by (cases b) (simp_all add: skipWs_ws literal_not_ws isDigit_def parseLiteral_def)
next
  case (JNum m)
  then have safe: "safeInteger m" by simp
  obtain i where m: "m = Finite (of_int i)" and s: "showNumber m = showInt i"
    using safeInteger_Finite [OF safe] by blast
  obtain c t where ct: "showInt i = c # t" "c = CHR ''-'' \<or> isDigit c"
    using showInt_start by blast
  have "parseNumber (c # t @ rest) = Some (JNum m, rest)"
    using parseNumber_showNumber [OF JNum.prems(4) safe] s ct by simp
  then show ?case
    using JNum.prems(2) s ct start_not_ws [OF ct(2)] by (auto simp: skipWs_ws)
next
  case (JStr s)
  then show ?case
    by (simp add: skipWs_ws quoteJSONString_def punct_not_ws parseString_quoted
        del: parseString.simps)
next
  case (JArr xs)
  show ?case
  proof (cases "xs = []")
    case True
    with JArr.prems show ?thesis
      by (simp add: skipWs_ws punct_not_ws)
  next
    case False
    let ?ind' = "ind @ ''  ''"
    let ?body = "joinWith (CHR '','' # newline # ?ind') (map (serializeJSON ?ind') xs)
                   @ newline # ind @ CHR '']'' # rest"
    have ws': "list_all isWs ?ind'" "list_all isWs (newline # ?ind')"
      using JArr.prems(3) by (simp_all add: isWs_space isWs_newline)
    obtain c t where ct: "?body = c # t" "\<not> isWs c" "c \<noteq> CHR '']''"
      using joinWith_start [OF False] by blast
    have first: "skipWs (newline # ?ind' @ ?body) = c # t"
      using ws'(1) ct by (simp add: isWs_newline skipWs_ws)
    have "parseElements n ((newline # ?ind') @ ?body) = Some (xs, rest)"
    proof (rule parseElements_join)
      fix x w' rest' n'
      assume "x \<in> set xs" "list_all isWs w'" "numEnd rest'" "parseCost x \<le> n'"
      then show "parseValue (Suc n') (w' @ serializeJSON ?ind' x @ rest') = Some (x, rest')"
        using JArr.prems(1) ws'(1) by (intro JArr.IH) (simp_all add: list_all_iff)
    qed (use False ws' JArr.prems in simp_all)
    then have elems: "parseElements n (newline # ?ind' @ ?body) = Some (xs, rest)"
      by simp
    have "parseValue (Suc n) (w @ CHR ''['' # newline # ?ind' @ ?body) = Some (JArr xs, rest)"
      using JArr.prems(2) first elems ct by (simp add: skipWs_ws punct_not_ws)
    then show ?thesis
      using False by simp
  qed
next
  case (JObj kvs)
  show ?case
  proof (cases "kvs = []")
    case True
    with JObj.prems show ?thesis
      by (simp add: skipWs_ws punct_not_ws)
  next
    case False
    let ?ind' = "ind @ ''  ''"
    let ?body = "joinWith (CHR '','' # newline # ?ind')
                   (map (\<lambda>(k, v). quoteJSONString k @ '': '' @ serializeJSON ?ind' v) kvs)
                   @ newline # ind @ CHR ''}'' # rest"
    have ws': "list_all isWs ?ind'" "list_all isWs (newline # ?ind')"
      using JObj.prems(3) by (simp_all add: isWs_space isWs_newline)
    obtain t where ct: "?body = dquote # t"
      using joinWith_members_start [OF False] by blast
    have first: "skipWs (newline # ?ind' @ ?body) = dquote # t"
      using ws'(1) ct by (simp add: isWs_newline skipWs_ws punct_not_ws)
    have "parseMembers n ((newline # ?ind') @ ?body) = Some (kvs, rest)"
    proof (rule parseMembers_join)
      fix k v w' rest' n'
      assume "(k, v) \<in> set kvs" "list_all isWs w'" "numEnd rest'" "parseCost v \<le> n'"
      then show "parseValue (Suc n') (w' @ serializeJSON ?ind' v @ rest') = Some (v, rest')"
        using JObj.prems(1) ws'(1)
        by (intro JObj.IH [of "(k, v)"]) (auto simp: list_all_iff)
    qed (use False ws' JObj.prems in simp_all)
    then have members: "parseMembers n (newline # ?ind' @ ?body) = Some (kvs, rest)"
      by simp
    have obj: "makeObject kvs = JObj kvs"
      using JObj.prems(1) by (simp add: makeObject_distinct)
    have "parseValue (Suc n) (w @ CHR ''{'' # newline # ?ind' @ ?body) = Some (JObj kvs, rest)"
      using JObj.prems(2) first members obj by (simp add: skipWs_ws punct_not_ws)
    then show ?thesis
      using False by simp
  qed
qed

subsection \<open>The bound on the depth\<close>

lemma length_joinWith:
  "ys \<noteq> [] \<Longrightarrow>
     length (joinWith sep ys) + length sep = sum_list (map (\<lambda>y. length y + length sep) ys)"
  by (induction sep ys rule: joinWith.induct) simp_all

lemma parseCost_length: "parseCost v \<le> length (serializeJSON ind v)"
proof (induction v arbitrary: ind)
  case (JArr xs)
  show ?case
  proof (cases "xs = []")
    case True
    then show ?thesis by simp
  next
    case False
    let ?ind' = "ind @ ''  ''"
    let ?sep = "CHR '','' # newline # ?ind'"
    have "sum_list (map (\<lambda>x. 2 + parseCost x) xs)
            \<le> sum_list (map (\<lambda>y. length y + length ?sep) (map (serializeJSON ?ind') xs))"
      unfolding map_map comp_def
    proof (rule sum_list_mono)
      fix x assume "x \<in> set xs"
      then have "parseCost x \<le> length (serializeJSON ?ind' x)"
        by (rule JArr.IH)
      then show "2 + parseCost x \<le> length (serializeJSON ?ind' x) + length ?sep"
        by simp
    qed
    also have "\<dots> = length (joinWith ?sep (map (serializeJSON ?ind') xs)) + length ?sep"
      by (rule length_joinWith [symmetric]) (simp add: False)
    finally show ?thesis
      using False by simp
  qed
next
  case (JObj kvs)
  show ?case
  proof (cases "kvs = []")
    case True
    then show ?thesis by simp
  next
    case False
    let ?ind' = "ind @ ''  ''"
    let ?sep = "CHR '','' # newline # ?ind'"
    let ?member = "\<lambda>(k, v). quoteJSONString k @ '': '' @ serializeJSON ?ind' v"
    have "sum_list (map (\<lambda>kv. 2 + parseCost (snd kv)) kvs)
            \<le> sum_list (map (\<lambda>y. length y + length ?sep) (map ?member kvs))"
      unfolding map_map comp_def
    proof (rule sum_list_mono)
      fix kv assume "kv \<in> set kvs"
      then have "parseCost (snd kv) \<le> length (serializeJSON ?ind' (snd kv))"
        by (intro JObj.IH [of kv]) (cases kv, simp_all)+
      then show "2 + parseCost (snd kv) \<le> length (?member kv) + length ?sep"
        by (cases kv) simp
    qed
    also have "\<dots> = length (joinWith ?sep (map ?member kvs)) + length ?sep"
      by (rule length_joinWith [symmetric]) (simp add: False)
    finally show ?thesis
      using False by simp
  qed
qed simp_all

lemma allNumbers_mono:
  assumes "\<And>n. P n \<Longrightarrow> Q n"
  shows "allNumbers P v \<Longrightarrow> allNumbers Q v"
proof (induction v)
  case (JNum n)
  then show ?case using assms by simp
next
  case (JArr xs)
  then show ?case by (auto simp: list_all_iff)
next
  case (JObj kvs)
  show ?case
    unfolding allNumbers.simps list_all_iff
  proof
    fix kv assume kv: "kv \<in> set kvs"
    then have "allNumbers P (snd kv)"
      using JObj.prems by (simp add: list_all_iff)
    then show "allNumbers Q (snd kv)"
      using kv by (intro JObj.IH [of kv]) (cases kv, simp_all)+
  qed
qed simp_all

lemma safeInteger_printedExactly: "safeInteger n \<Longrightarrow> printedExactly n"
  by (cases n) (simp_all add: safeInteger_def printedExactly_def)

text \<open>
  The reference parser reads back what the reference printer prints, for every well
  formed value whose numbers are whole numbers up to \<open>2^53\<close> and whose strings have no
  surrogate without its partner.
\<close>

lemma refParse_refStringify:
  assumes "wfJson v" and "allNumbers safeInteger v" and "allStrings noLoneSurrogate v"
  shows "refParse (refStringify v) = Some v"
proof -
  have dom: "allNumbers printedExactly v"
    using assms(2) safeInteger_printedExactly by (rule allNumbers_mono [rotated])
  have "parseValue (Suc (length (serializeJSON [] v))) ([] @ serializeJSON [] v @ []) = Some (v, [])"
    using assms(1,2) by (intro parseValue_serialize) (simp_all add: numEnd_Nil parseCost_length)
  then show ?thesis
    by (simp add: refParse_def refStringify_def dom assms(3))
qed

subsection \<open>Import and export\<close>

text \<open>
  C7. For every input text whose JSON parse is not an array (whatever \<^verbatim>\<open>JSON.parse\<close>
  makes of the text), the import shows the format error "the file must contain a list
  (array) of transactions" and leaves the transaction list unchanged.
\<close>

theorem import_rejects_non_array:
  assumes "JSON_parse content = Some v" and "\<not> isArray v"
  shows "handleFileChange JSON_parse onImportData confirmed content st = alert AlertNotAnArray st
         \<and> transactionsState (handleFileChange JSON_parse onImportData confirmed content st)
             = transactionsState st"
  using assms by (simp add: handleFileChange_def alert_def)

text \<open>The witness is the text \<^verbatim>\<open>{"a": 1.5}\<close>, read by the reference parser.\<close>

theorem import_rejects_non_array_witness:
  "refParse [CHR ''{'', CHR 0x22, CHR ''a'', CHR 0x22, CHR '':'', CHR '' '', CHR ''1'', CHR ''.'',
             CHR ''5'', CHR ''}'']
     = Some (JObj [(''a'', JNum (Finite 1.5))])
   \<and> \<not> isArray (JObj [(''a'', JNum (Finite 1.5))])
   \<and> handleFileChange refParse (Some handleImportData) True
        [CHR ''{'', CHR 0x22, CHR ''a'', CHR 0x22, CHR '':'', CHR '' '', CHR ''1'', CHR ''.'',
         CHR ''5'', CHR ''}'']
        \<lparr>transactionsState = [JNum (Finite 7)], notices = []\<rparr>
      = \<lparr>transactionsState = [JNum (Finite 7)], notices = [AlertNotAnArray]\<rparr>"
proof -
  have p: "refParse [CHR ''{'', CHR 0x22, CHR ''a'', CHR 0x22, CHR '':'', CHR '' '', CHR ''1'',
                     CHR ''.'', CHR ''5'', CHR ''}'']
     = Some (JObj [(''a'', JNum (Finite 1.5))])"
    by code_simp
  have a: "\<not> isArray (JObj [(''a'', JNum (Finite 1.5))])"
    by (simp add: isArray_def)
  show ?thesis
    using p a import_rejects_non_array [of refParse _ _ "Some handleImportData" True
        "\<lparr>transactionsState = [JNum (Finite 7)], notices = []\<rparr>", OF p a]
    by (simp add: alert_def)
qed

lemma export_import_json:
  assumes "JSON_parse (JSON_stringify (JArr ts)) = Some (JArr ts)"
    and "firstLooksWrong ts = Some False"
  shows "handleFileChange JSON_parse (Some handleImportData) True
           (handleExportJSON JSON_stringify ts) st
         = handleImportData ts st"
  using assms by (simp add: handleFileChange_def handleExportJSON_def isArray_def)

text \<open>
  With the reference codec, the export of a list of transaction records of the data model
  is imported as the list itself, when the first record has an amount that is not zero and
  a date that is not empty.
\<close>

lemma wfJson_transactions: "wfJson (JArr (map transactionJson txs))"
  by (simp add: list_all_iff transactionJson_def)

lemma allNumbers_transactions:
  assumes "list_all (\<lambda>t. \<bar>amount t\<bar> \<le> 9007199254740992) txs"
  shows "allNumbers safeInteger (JArr (map transactionJson txs))"
proof -
  have "isSafeInteger (real_of_int (amount t))" if "t \<in> set txs" for t
  proof -
    have "\<bar>amount t\<bar> \<le> 9007199254740992"
      using assms that by (simp add: list_all_iff)
    then have "\<bar>real_of_int (amount t)\<bar> \<le> 9007199254740992"
      by linarith
    then show ?thesis
      by (simp add: isSafeInteger_def)
  qed
  then show ?thesis
    by (simp add: list_all_iff transactionJson_def safeInteger_def)
qed

lemma noLoneSurrogate_ascii:
  "list_all (\<lambda>c. int (of_char c) < 128) s \<Longrightarrow> noLoneSurrogate s"
  by (induction s rule: noLoneSurrogate.induct) auto

lemma noLoneSurrogate_names:
  "noLoneSurrogate (typeName ty)" "noLoneSurrogate (categoryName c)"
  by (cases ty; simp add: typeName_def) (cases c; simp add: categoryName_def)

lemma allStrings_transactions:
  assumes "list_all (\<lambda>t. noLoneSurrogate (id_t t) \<and> noLoneSurrogate (date t)
                        \<and> noLoneSurrogate (note_t t)) txs"
  shows "allStrings noLoneSurrogate (JArr (map transactionJson txs))"
  using assms by (simp add: list_all_iff transactionJson_def noLoneSurrogate_names)

lemma firstLooksWrong_transactions:
  assumes "case txs of [] \<Rightarrow> True | t # _ \<Rightarrow> amount t \<noteq> 0 \<and> date t \<noteq> []"
  shows "firstLooksWrong (map transactionJson txs) = Some False"
  using assms
  by (cases txs)
     (simp_all add: firstLooksWrong_def notProp_def transactionJson_def truthy_def
        truthyNumber_def)

lemma export_import_reference:
  assumes "case txs of [] \<Rightarrow> True | t # _ \<Rightarrow> amount t \<noteq> 0 \<and> date t \<noteq> []"
    and "list_all (\<lambda>t. \<bar>amount t\<bar> \<le> 9007199254740992) txs"
    and "list_all (\<lambda>t. noLoneSurrogate (id_t t) \<and> noLoneSurrogate (date t)
                      \<and> noLoneSurrogate (note_t t)) txs"
  shows "handleFileChange refParse (Some handleImportData) True
           (handleExportJSON refStringify (map transactionJson txs)) st
         = handleImportData (map transactionJson txs) st"
proof -
  have "refParse (refStringify (JArr (map transactionJson txs)))
          = Some (JArr (map transactionJson txs))"
    using wfJson_transactions allNumbers_transactions [OF assms(2)]
      allStrings_transactions [OF assms(3)]
    by (rule refParse_refStringify)
  then show ?thesis
    using firstLooksWrong_transactions [OF assms(1)]
    by (rule export_import_json [of refParse refStringify])
qed




end
